theory Spec2Isabelle
  imports Complex_Main "HOL-Library.AList" "HOL-Library.Sublist"
begin

section \<open>Values handled by the scraper\<close>

text \<open>
  The value returned by \<^verbatim>\<open>response.json()\<close>: Python's \<^verbatim>\<open>None\<close>, \<^verbatim>\<open>bool\<close>,
  \<^verbatim>\<open>int\<close>, \<^verbatim>\<open>float\<close>, \<^verbatim>\<open>str\<close>, \<^verbatim>\<open>list\<close> and \<^verbatim>\<open>dict\<close>. A dict is carried
  as an association list read with \<open>map_of\<close> (the first binding of a key counts) whose
  keys are taken in order of first appearance. A float is carried as the rational it
  denotes; it is never computed with, only stored in a cell. The literals
  \<^verbatim>\<open>NaN\<close> and \<^verbatim>\<open>Infinity\<close> are not represented.
\<close>

datatype json =
    JNull
  | JBool bool
  | JInt int
  | JFloat rat
  | JStr string
  | JArr "json list"
  | JObj "(string \<times> json) list"

text \<open>The Python exceptions that the body of the loop can raise.\<close>

datatype error =
    KeyError
  | IndexError
  | TypeError
  | ValueError
  | AttributeError

text \<open>
  One cell of a pandas table: a value taken over from the JSON data (the ticker and the
  processing date are \<open>Val (JStr s)\<close>), the missing value \<^verbatim>\<open>NaN\<close>, a timestamp counted
  in nanoseconds since 1970-01-01T00:00:00, or the missing timestamp \<^verbatim>\<open>NaT\<close>. Column
  dtypes are not modelled: a cell keeps the value it was built from (where pandas would
  store the integer 45 as 45.0 in a float column, the cell remains \<open>Val (JInt 45)\<close>).
\<close>

datatype cell =
    Val json
  | NaN
  | Timestamp int
  | NaT

text \<open>
  A \<^verbatim>\<open>DataFrame\<close>: its column labels in order and its rows in order, each row holding
  one cell per column. The row index is left out: the tables are concatenated with
  \<^verbatim>\<open>ignore_index=True\<close> and written with \<^verbatim>\<open>index=False\<close>.
\<close>

record frame =
  columns :: "string list"
  rows :: "cell list list"

definition empty_frame :: frame where
  "empty_frame = \<lparr>columns = [], rows = []\<rparr>"

text \<open>\<^verbatim>\<open>df.empty\<close>: some axis has length 0.\<close>

definition df_empty :: "frame \<Rightarrow> bool" where
  "df_empty df = (columns df = [] \<or> rows df = [])"

text \<open>A table is well formed when every row has one cell per column.\<close>

definition wf_frame :: "frame \<Rightarrow> bool" where
  "wf_frame df = list_all (\<lambda>r. length r = length (columns df)) (rows df)"

section \<open>Python operations on the parsed response\<close>

text \<open>The elements of a list in order of first appearance, each once.\<close>

definition first_seen :: "'a list \<Rightarrow> 'a list" where
  "first_seen xs = rev (remdups (rev xs))"

text \<open>\<^verbatim>\<open>needle in hay\<close> on two strings: \<open>needle\<close> occurs as a substring.\<close>

fun str_contains :: "string \<Rightarrow> string \<Rightarrow> bool" where
  "str_contains needle [] = (needle = [])"
| "str_contains needle (c # cs) = (prefix needle (c # cs) \<or> str_contains needle cs)"

text \<open>
  \<^verbatim>\<open>key in container\<close> for a string key: membership among the keys of a dict, among
  the elements of a list, substring test on a string, \<^verbatim>\<open>TypeError\<close> on anything else.
\<close>

fun py_in :: "string \<Rightarrow> json \<Rightarrow> error + bool" where
  "py_in key (JObj kvs) = Inr (key \<in> set (map fst kvs))"
| "py_in key (JArr xs) = Inr (JStr key \<in> set xs)"
| "py_in key (JStr s) = Inr (str_contains key s)"
| "py_in key JNull = Inl TypeError"
| "py_in key (JBool b) = Inl TypeError"
| "py_in key (JInt n) = Inl TypeError"
| "py_in key (JFloat q) = Inl TypeError"

text \<open>\<^verbatim>\<open>container[key]\<close> for a string key.\<close>

fun py_getitem :: "json \<Rightarrow> string \<Rightarrow> error + json" where
  "py_getitem (JObj kvs) key =
     (case map_of kvs key of None \<Rightarrow> Inl KeyError | Some v \<Rightarrow> Inr v)"
| "py_getitem (JArr xs) key = Inl TypeError"
| "py_getitem (JStr s) key = Inl TypeError"
| "py_getitem JNull key = Inl TypeError"
| "py_getitem (JBool b) key = Inl TypeError"
| "py_getitem (JInt n) key = Inl TypeError"
| "py_getitem (JFloat q) key = Inl TypeError"

text \<open>
  \<^verbatim>\<open>container[0]\<close>: the first element of a list or the first character of a string
  (\<^verbatim>\<open>IndexError\<close> when empty); a dict parsed from JSON has string keys only, so the key
  \<^verbatim>\<open>0\<close> is missing.
\<close>

fun py_getitem_0 :: "json \<Rightarrow> error + json" where
  "py_getitem_0 (JArr []) = Inl IndexError"
| "py_getitem_0 (JArr (x # xs)) = Inr x"
| "py_getitem_0 (JStr []) = Inl IndexError"
| "py_getitem_0 (JStr (c # cs)) = Inr (JStr [c])"
| "py_getitem_0 (JObj kvs) = Inl KeyError"
| "py_getitem_0 JNull = Inl TypeError"
| "py_getitem_0 (JBool b) = Inl TypeError"
| "py_getitem_0 (JInt n) = Inl TypeError"
| "py_getitem_0 (JFloat q) = Inl TypeError"

section \<open>The pandas operations the scraper calls\<close>

text \<open>
  pandas is a library, not part of the repository. Each operation below states what the
  call does on the tables that the scraper builds, as far as the scraper can observe it.
\<close>

fun is_dict :: "json \<Rightarrow> bool" where
  "is_dict (JObj kvs) = True"
| "is_dict j = False"

fun dict_keys :: "json \<Rightarrow> string list" where
  "dict_keys (JObj kvs) = first_seen (map fst kvs)"
| "dict_keys j = []"

text \<open>The cell a record contributes to a column: its value, or \<^verbatim>\<open>NaN\<close> without the key.\<close>

definition record_cell :: "(string \<times> json) list \<Rightarrow> string \<Rightarrow> cell" where
  "record_cell kvs k = (case map_of kvs k of None \<Rightarrow> NaN | Some v \<Rightarrow> Val v)"

fun record_row :: "string list \<Rightarrow> json \<Rightarrow> cell list" where
  "record_row cols (JObj kvs) = map (record_cell kvs) cols"
| "record_row cols j = []"

text \<open>
  \<^verbatim>\<open>pd.DataFrame(records)\<close> for a list of dicts: one row per dict, the columns are the
  keys in order of first appearance.
\<close>

definition frame_from_records :: "json list \<Rightarrow> frame" where
  "frame_from_records recs =
     (let cols = first_seen (concat (map dict_keys recs))
      in \<lparr>columns = cols, rows = map (record_row cols) recs\<rparr>)"

fun array_lengths :: "json list \<Rightarrow> nat list" where
  "array_lengths [] = []"
| "array_lengths (JArr xs # vs) = length xs # array_lengths vs"
| "array_lengths (v # vs) = array_lengths vs"

fun dict_indexes :: "json list \<Rightarrow> string list" where
  "dict_indexes [] = []"
| "dict_indexes (JObj kvs # vs) = map fst kvs @ dict_indexes vs"
| "dict_indexes (v # vs) = dict_indexes vs"

text \<open>The cell at position \<open>i\<close> of a column given as a list; a scalar fills the column.\<close>

fun array_cell :: "nat \<Rightarrow> json \<Rightarrow> cell" where
  "array_cell i (JArr xs) = (if i < length xs then Val (xs ! i) else NaN)"
| "array_cell i v = Val v"

text \<open>The cell at index label \<open>k\<close> of a column given as a dict; a scalar fills the column.\<close>

fun series_cell :: "string \<Rightarrow> json \<Rightarrow> cell" where
  "series_cell k (JObj kvs) = record_cell kvs k"
| "series_cell k v = Val v"

text \<open>
  \<^verbatim>\<open>pd.DataFrame(d)\<close> for a dict: one column per key. The values are lists of one
  common length (one row per position), or dicts (one row per index label, in order of
  first appearance), scalars being repeated on every row. pandas raises \<^verbatim>\<open>ValueError\<close>
  when a non-empty dict holds scalars only, when the lists differ in length, and when
  lists and dicts are mixed.
\<close>

definition frame_from_dict :: "(string \<times> json) list \<Rightarrow> error + frame" where
  "frame_from_dict kvs =
     (let items = AList.clearjunk kvs;
          vals = map snd items;
          lens = first_seen (array_lengths vals);
          index = first_seen (dict_indexes vals)
      in if items = [] then Inr empty_frame
         else if lens = [] \<and> \<not> list_ex is_dict vals then Inl ValueError
         else if lens = [] then
           Inr \<lparr>columns = map fst items,
                rows = map (\<lambda>k. map (series_cell k) vals) index\<rparr>
         else if 1 < length lens \<or> list_ex is_dict vals then Inl ValueError
         else
           Inr \<lparr>columns = map fst items,
                rows = map (\<lambda>i. map (array_cell i) vals) [0..<hd lens]\<rparr>)"

text \<open>
  \<^verbatim>\<open>pd.DataFrame(data)\<close> on a parsed JSON value. \<^verbatim>\<open>None\<close> and the empty list give the
  empty table; a number, a boolean and a string are refused with \<^verbatim>\<open>ValueError\<close>; a list
  that starts with a dict must hold dicts only (\<^verbatim>\<open>AttributeError\<close> otherwise, from
  \<^verbatim>\<open>x.keys()\<close>). For a list that starts with anything else pandas either raises or
  builds a table whose column labels are integers, on which the lookup of the label
  \<^verbatim>\<open>"timestamp"\<close> at line 60 raises \<^verbatim>\<open>KeyError\<close>: the model reports that
  \<^verbatim>\<open>KeyError\<close> here, since no such table has a column the scraper could read.
\<close>

fun pd_DataFrame :: "json \<Rightarrow> error + frame" where
  "pd_DataFrame JNull = Inr empty_frame"
| "pd_DataFrame (JArr []) = Inr empty_frame"
| "pd_DataFrame (JArr (JObj kvs # xs)) =
     (if list_all is_dict xs then Inr (frame_from_records (JObj kvs # xs))
      else Inl AttributeError)"
| "pd_DataFrame (JArr (x # xs)) = Inl KeyError"
| "pd_DataFrame (JObj kvs) = frame_from_dict kvs"
| "pd_DataFrame (JBool b) = Inl ValueError"
| "pd_DataFrame (JInt n) = Inl ValueError"
| "pd_DataFrame (JFloat q) = Inl ValueError"
| "pd_DataFrame (JStr s) = Inl ValueError"

text \<open>The cells of a row that stand under the label \<open>name\<close>.\<close>

definition cells_named :: "string list \<Rightarrow> cell list \<Rightarrow> string \<Rightarrow> cell list" where
  "cells_named cols r name = map snd (filter (\<lambda>(c, x). c = name) (zip cols r))"

text \<open>
  \<^verbatim>\<open>df[name] = value\<close> with a scalar: every row gets the value under that label; a
  new label is appended as the last column.
\<close>

definition set_column :: "string \<Rightarrow> cell \<Rightarrow> frame \<Rightarrow> frame" where
  "set_column name v df =
     (if name \<in> set (columns df)
      then df\<lparr>rows := map (\<lambda>r. map (\<lambda>(c, x). if c = name then v else x) (zip (columns df) r))
                          (rows df)\<rparr>
      else \<lparr>columns = columns df @ [name], rows = map (\<lambda>r. r @ [v]) (rows df)\<rparr>)"

text \<open>\<^verbatim>\<open>df[name]\<close>: the cells of one column, \<^verbatim>\<open>KeyError\<close> without that label.\<close>

definition get_column :: "string \<Rightarrow> frame \<Rightarrow> error + cell list" where
  "get_column name df =
     (if name \<in> set (columns df)
      then Inr (map (\<lambda>r. case cells_named (columns df) r name of [] \<Rightarrow> NaN | x # xs \<Rightarrow> x)
                    (rows df))
      else Inl KeyError)"

text \<open>\<^verbatim>\<open>df[name] = series\<close> for an existing label: row \<open>i\<close> gets the \<open>i\<close>-th cell.\<close>

definition assign_column :: "string \<Rightarrow> cell list \<Rightarrow> frame \<Rightarrow> frame" where
  "assign_column name vs df =
     df\<lparr>rows := map (\<lambda>(r, v). map (\<lambda>(c, x). if c = name then v else x) (zip (columns df) r))
                     (zip (rows df) vs)\<rparr>"

text \<open>
  \<^verbatim>\<open>df[labels]\<close>: the columns under the given labels, in the order of the labels;
  \<^verbatim>\<open>KeyError\<close> when a label is missing.
\<close>

definition select_columns :: "string list \<Rightarrow> frame \<Rightarrow> error + frame" where
  "select_columns names df =
     (if list_all (\<lambda>n. n \<in> set (columns df)) names
      then Inr \<lparr>columns = concat (map (\<lambda>n. filter (\<lambda>c. c = n) (columns df)) names),
                rows = map (\<lambda>r. concat (map (cells_named (columns df) r) names)) (rows df)\<rparr>
      else Inl KeyError)"

text \<open>\<^verbatim>\<open>df.rename(columns=mapping)\<close>: labels in the mapping are replaced.\<close>

definition rename_columns :: "(string \<times> string) list \<Rightarrow> frame \<Rightarrow> frame" where
  "rename_columns mapping df =
     df\<lparr>columns := map (\<lambda>c. case map_of mapping c of None \<Rightarrow> c | Some c' \<Rightarrow> c') (columns df)\<rparr>"

text \<open>
  \<^verbatim>\<open>pd.concat(frames, ignore_index=True)\<close>: the rows of all tables in order, under the
  union of their columns in order of first appearance; a row has \<^verbatim>\<open>NaN\<close> under a label
  its table does not have.
\<close>

definition reindex_row :: "string list \<Rightarrow> string list \<Rightarrow> cell list \<Rightarrow> cell list" where
  "reindex_row new_cols cols r =
     map (\<lambda>n. case cells_named cols r n of [] \<Rightarrow> NaN | x # xs \<Rightarrow> x) new_cols"

definition pd_concat :: "frame list \<Rightarrow> frame" where
  "pd_concat dfs =
     (let cols = first_seen (concat (map columns dfs))
      in \<lparr>columns = cols,
          rows = concat (map (\<lambda>df. map (reindex_row cols (columns df)) (rows df)) dfs)\<rparr>)"

text \<open>
  \<^verbatim>\<open>pd.to_datetime(series, unit="s")\<close> on one cell. A whole number of seconds that
  fits the nanosecond range of a pandas timestamp becomes that instant; a missing value
  becomes \<^verbatim>\<open>NaT\<close>. What pandas does with any other cell (a float, a string, a boolean,
  a nested value, an integer out of range: convert it or raise) depends on its version
  and on floating-point arithmetic; it is the parameter \<open>other\<close>.
\<close>

fun to_datetime_cell :: "(json \<Rightarrow> error + cell) \<Rightarrow> cell \<Rightarrow> error + cell" where
  "to_datetime_cell other (Val (JInt n)) =
     (if - 9223372036 \<le> n \<and> n \<le> 9223372036 then Inr (Timestamp (n * 1000000000))
      else other (JInt n))"
| "to_datetime_cell other (Val JNull) = Inr NaT"
| "to_datetime_cell other (Val j) = other j"
| "to_datetime_cell other NaN = Inr NaT"
| "to_datetime_cell other NaT = Inr NaT"
| "to_datetime_cell other (Timestamp t) = Inr (Timestamp t)"

text \<open>The conversion of a column raises as soon as one cell does.\<close>

fun to_datetime :: "(json \<Rightarrow> error + cell) \<Rightarrow> cell list \<Rightarrow> error + cell list" where
  "to_datetime other [] = Inr []"
| "to_datetime other (c # cs) =
     (case to_datetime_cell other c of
        Inl e \<Rightarrow> Inl e
      | Inr t \<Rightarrow> (case to_datetime other cs of Inl e \<Rightarrow> Inl e | Inr ts \<Rightarrow> Inr (t # ts)))"

section \<open>The world around one run\<close>

text \<open>
  What \<^verbatim>\<open>requests.get\<close> gives back: it raises a \<^verbatim>\<open>RequestException\<close> (connection
  error, timeout), or returns a response with a status code and a body; the body is
  \<open>None\<close> when \<^verbatim>\<open>response.json()\<close> raises \<^verbatim>\<open>JSONDecodeError\<close>, else the parsed value.
\<close>

datatype http_result =
    RequestException
  | Response nat "json option"

text \<open>
  The environment of a run: the answer to the \<open>i\<close>-th request (for the ticker asked),
  the \<open>i\<close>-th draw of \<^verbatim>\<open>random.uniform(0, 3)\<close>, and the behaviour of
  \<^verbatim>\<open>pd.to_datetime\<close> on cells that are not whole seconds in range.
\<close>

record env =
  requests_get :: "nat \<Rightarrow> string \<Rightarrow> http_result"
  random_uniform :: "nat \<Rightarrow> rat"
  to_datetime_other :: "json \<Rightarrow> error + cell"

text \<open>
  The per-ticker lines printed by the loop (lines 69, 71, 74, 77, 81, 85 and 89; the text
  of a caught exception is left out), and the effects of a run in the order they happen.
  The progress and summary lines (34, 37, 93 to 95, 100, 101, 104) are not recorded.
\<close>

datatype message =
    Successfully_fetched string
  | No_ESG_data string
  | Invalid_JSON string
  | Rate_limited string
  | Error_fetching string nat
  | Request_error string
  | Error_processing string

datatype event =
    Sleep rat
  | Get string
  | Print message

text \<open>The local variables of \<^verbatim>\<open>fetch_historical_esg\<close>, with the effects so far.\<close>

record fetch_state =
  all_data :: "frame list"
  successful_tickers :: nat
  failed_tickers :: nat
  trace :: "event list"

section \<open>fetch\_historical\_esg\<close>

definition columns_to_keep :: "string list" where
  "columns_to_keep =
     [''timestamp'', ''ticker'', ''esgScore'', ''governanceScore'',
      ''environmentScore'', ''socialScore'']"

text \<open>\<^verbatim>\<open>response.ok\<close>: the status is not a client or server error (400 to 599).\<close>

definition response_ok :: "nat \<Rightarrow> bool" where
  "response_ok code = (\<not> (400 \<le> code \<and> code < 600))"

text \<open>Line 55: \<^verbatim>\<open>data["esgChart"]["result"][0]["symbolSeries"]\<close>.\<close>

definition symbol_series :: "json \<Rightarrow> error + json" where
  "symbol_series data =
     (case py_getitem data ''esgChart'' of
        Inl e \<Rightarrow> Inl e
      | Inr chart \<Rightarrow>
          (case py_getitem chart ''result'' of
             Inl e \<Rightarrow> Inl e
           | Inr result \<Rightarrow>
               (case py_getitem_0 result of
                  Inl e \<Rightarrow> Inl e
                | Inr first \<Rightarrow> py_getitem first ''symbolSeries'')))"

text \<open>Lines 58 to 65: the table of one ticker.\<close>

definition ticker_frame :: "(json \<Rightarrow> error + cell) \<Rightarrow> string \<Rightarrow> json \<Rightarrow> error + frame" where
  "ticker_frame other ticker esg_data =
     (case pd_DataFrame esg_data of
        Inl e \<Rightarrow> Inl e
      | Inr df0 \<Rightarrow>
          (let df = set_column ''ticker'' (Val (JStr ticker)) df0
           in case get_column ''timestamp'' df of
                Inl e \<Rightarrow> Inl e
              | Inr col \<Rightarrow>
                  (case to_datetime other col of
                     Inl e \<Rightarrow> Inl e
                   | Inr ts \<Rightarrow> select_columns columns_to_keep (assign_column ''timestamp'' ts df))))"

text \<open>
  Line 53: \<^verbatim>\<open>"esgChart" in data and "result" in data["esgChart"]\<close>; the right operand
  is evaluated only when the left one is true.
\<close>

definition has_esg_result :: "json \<Rightarrow> error + bool" where
  "has_esg_result data =
     (case py_in ''esgChart'' data of
        Inl e \<Rightarrow> Inl e
      | Inr False \<Rightarrow> Inr False
      | Inr True \<Rightarrow>
          (case py_getitem data ''esgChart'' of
             Inl e \<Rightarrow> Inl e
           | Inr chart \<Rightarrow> py_in ''result'' chart))"

text \<open>
  Lines 53 to 72, the body of the inner \<^verbatim>\<open>try\<close> after the response was parsed:
  \<open>Inr (Some df)\<close> when a table was built, \<open>Inr None\<close> for the \<^verbatim>\<open>else\<close> branch, \<open>Inl e\<close>
  when an exception leaves the block.
\<close>

definition extract_frame :: "(json \<Rightarrow> error + cell) \<Rightarrow> string \<Rightarrow> json \<Rightarrow> error + frame option" where
  "extract_frame other ticker data =
     (case has_esg_result data of
        Inl e \<Rightarrow> Inl e
      | Inr False \<Rightarrow> Inr None
      | Inr True \<Rightarrow>
          (case symbol_series data of
             Inl e \<Rightarrow> Inl e
           | Inr esg_data \<Rightarrow>
               (case ticker_frame other ticker esg_data of
                  Inl e \<Rightarrow> Inl e
                | Inr df \<Rightarrow> Inr (Some df))))"

text \<open>
  Effects are appended to the trace; every failing branch (lines 72, 75, 82, 86 and 90)
  prints its line and adds one to \<^verbatim>\<open>failed_tickers\<close>.
\<close>

definition emit :: "event list \<Rightarrow> fetch_state \<Rightarrow> fetch_state" where
  "emit es st = st\<lparr>trace := trace st @ es\<rparr>"

definition fail :: "message \<Rightarrow> fetch_state \<Rightarrow> fetch_state" where
  "fail m st = emit [Print m] (st\<lparr>failed_tickers := failed_tickers st + 1\<rparr>)"

text \<open>
  Lines 37 to 91, one iteration of the loop for the \<open>i\<close>-th ticker. None of the exceptions
  modelled in \<open>error\<close> is a \<^verbatim>\<open>JSONDecodeError\<close> or a \<^verbatim>\<open>RequestException\<close>, so each of
  them reaches the handler of line 88.
\<close>

definition process_ticker :: "env \<Rightarrow> rat \<Rightarrow> nat \<Rightarrow> string \<Rightarrow> fetch_state \<Rightarrow> fetch_state" where
  "process_ticker world delay i ticker st0 =
     (let st = emit [Sleep (delay + random_uniform world i), Get ticker] st0
      in case requests_get world i ticker of
           RequestException \<Rightarrow> fail (Request_error ticker) st
         | Response status_code body \<Rightarrow>
             if response_ok status_code then
               (case body of
                  None \<Rightarrow> fail (Invalid_JSON ticker) st
                | Some data \<Rightarrow>
                    (case extract_frame (to_datetime_other world) ticker data of
                       Inl e \<Rightarrow> fail (Error_processing ticker) st
                     | Inr None \<Rightarrow> fail (No_ESG_data ticker) st
                     | Inr (Some df) \<Rightarrow>
                         emit [Print (Successfully_fetched ticker)]
                           (st\<lparr>all_data := all_data st @ [df],
                               successful_tickers := successful_tickers st + 1\<rparr>)))
             else if status_code = 429 then
               emit [Print (Rate_limited ticker), Sleep 10] st
             else fail (Error_fetching ticker status_code) st)"

text \<open>Lines 36 to 91: \<^verbatim>\<open>for i, ticker in enumerate(tickers, 1)\<close>.\<close>

fun fetch_loop :: "env \<Rightarrow> rat \<Rightarrow> nat \<Rightarrow> string list \<Rightarrow> fetch_state \<Rightarrow> fetch_state" where
  "fetch_loop world delay i [] st = st"
| "fetch_loop world delay i (ticker # rest) st =
     fetch_loop world delay (Suc i) rest (process_ticker world delay i ticker st)"

definition initial_state :: fetch_state where
  "initial_state = \<lparr>all_data = [], successful_tickers = 0, failed_tickers = 0, trace = []\<rparr>"

text \<open>Lines 106 and 107: the table returned when no table was collected.\<close>

definition no_data_frame :: frame where
  "no_data_frame =
     \<lparr>columns = [''ticker'', ''timestamp'', ''last_processing_date'', ''total_score'',
                 ''environment_score'', ''social_score'', ''governance_score''],
      rows = []\<rparr>"

text \<open>
  \<^verbatim>\<open>fetch_historical_esg(tickers, delay)\<close>: the table returned, with the final state
  (the counters that lines 94 and 95 print, and the effects of the run).
\<close>

definition fetch_historical_esg :: "env \<Rightarrow> rat \<Rightarrow> string list \<Rightarrow> frame \<times> fetch_state" where
  "fetch_historical_esg world delay tickers =
     (let st = fetch_loop world delay 1 tickers initial_state
      in (if all_data st \<noteq> [] then pd_concat (all_data st) else no_data_frame, st))"

section \<open>format\_esg\_data\<close>

definition column_mapping :: "(string \<times> string) list" where
  "column_mapping =
     [(''esgScore'', ''total_score''),
      (''governanceScore'', ''governance_score''),
      (''environmentScore'', ''environment_score''),
      (''socialScore'', ''social_score'')]"

definition score_columns :: "string list" where
  "score_columns = [''total_score'', ''environment_score'', ''social_score'', ''governance_score'']"

text \<open>
  \<^verbatim>\<open>format_esg_data(esg_df)\<close>; \<open>today\<close> is the value of
  \<^verbatim>\<open>datetime.now().strftime('%Y-%m-%d')\<close>, read once at line 127.
\<close>

definition format_esg_data :: "string \<Rightarrow> frame \<Rightarrow> error + frame" where
  "format_esg_data today esg_df =
     (if df_empty esg_df then Inr esg_df
      else
        (let df = set_column ''last_processing_date'' (Val (JStr today))
                    (rename_columns column_mapping esg_df);
             cols = [''ticker'', ''timestamp'', ''last_processing_date'']
                    @ filter (\<lambda>col. col \<in> set (columns df)) score_columns
         in select_columns cols df))"

text \<open>
  Lines 156 and 159 of the main program: fetch with a delay of 5 seconds, then format.
  Reading the ticker file and writing the result file are left out.
\<close>

definition run_pipeline :: "env \<Rightarrow> string \<Rightarrow> string list \<Rightarrow> error + frame" where
  "run_pipeline world today tickers =
     format_esg_data today (fst (fetch_historical_esg world 5 tickers))"

section \<open>Reading a table\<close>

text \<open>The cells of a table under one label, row by row.\<close>

definition column_values :: "string \<Rightarrow> frame \<Rightarrow> cell list" where
  "column_values name df = concat (map (\<lambda>r. cells_named (columns df) r name) (rows df))"

text \<open>A table without the columns under one label.\<close>

definition drop_column :: "string \<Rightarrow> frame \<Rightarrow> frame" where
  "drop_column name df =
     \<lparr>columns = filter (\<lambda>c. c \<noteq> name) (columns df),
      rows = map (\<lambda>r. map snd (filter (\<lambda>(c, x). c \<noteq> name) (zip (columns df) r))) (rows df)\<rparr>"

text \<open>
  The calendar date of a day counted from 1970-01-01 in the proleptic Gregorian calendar,
  as pandas prints a timestamp: (year, month, day).
\<close>

definition civil_from_days :: "int \<Rightarrow> int \<times> int \<times> int" where
  "civil_from_days z =
     (let z0 = z + 719468;
          era = z0 div 146097;
          doe = z0 mod 146097;
          yoe = (doe - doe div 1460 + doe div 36524 - doe div 146096) div 365;
          doy = doe - (365 * yoe + yoe div 4 - yoe div 100);
          mp = (5 * doy + 2) div 153;
          d = doy - (153 * mp + 2) div 5 + 1;
          m = (if mp < 10 then mp + 3 else mp - 9);
          y = yoe + era * 400 + (if m \<le> 2 then 1 else 0)
      in (y, m, d))"

definition digit :: "int \<Rightarrow> char" where
  "digit n = ''0123456789'' ! nat (n mod 10)"

definition digits2 :: "int \<Rightarrow> string" where
  "digits2 n = [digit (n div 10), digit n]"

definition digits4 :: "int \<Rightarrow> string" where
  "digits4 n = [digit (n div 1000), digit (n div 100), digit (n div 10), digit n]"

text \<open>
  \<^verbatim>\<open>Timestamp.isoformat()\<close> of an instant that is a whole number of seconds, for the
  years 0 to 9999: \<^verbatim>\<open>YYYY-MM-DDTHH:MM:SS\<close>.
\<close>

definition isoformat :: "int \<Rightarrow> string" where
  "isoformat ns =
     (let s = ns div 1000000000;
          (y, m, d) = civil_from_days (s div 86400);
          sod = s mod 86400
      in digits4 y @ ''-'' @ digits2 m @ ''-'' @ digits2 d @ ''T''
         @ digits2 (sod div 3600) @ '':'' @ digits2 (sod mod 3600 div 60) @ '':''
         @ digits2 (sod mod 60))"

section \<open>Notions used to state the properties\<close>

text \<open>
  The parsed response has the path \<^verbatim>\<open>esgChart.result\<close>: it is a dict with the key
  \<^verbatim>\<open>esgChart\<close>, whose value is a dict with the key \<^verbatim>\<open>result\<close>.
\<close>

fun has_key :: "string \<Rightarrow> json \<Rightarrow> bool" where
  "has_key k (JObj kvs) = (k \<in> set (map fst kvs))"
| "has_key k j = False"

definition has_esgChart_result :: "json \<Rightarrow> bool" where
  "has_esgChart_result data =
     (case py_getitem data ''esgChart'' of Inl e \<Rightarrow> False | Inr chart \<Rightarrow> has_key ''result'' chart)"

text \<open>
  The field names that occur in a series: the keys of its records when it is a list, its
  own keys when it is a dict of columns.
\<close>

fun series_fields :: "json \<Rightarrow> string list" where
  "series_fields (JArr xs) = concat (map dict_keys xs)"
| "series_fields (JObj kvs) = map fst kvs"
| "series_fields j = []"

definition score_fields :: "string list" where
  "score_fields = [''esgScore'', ''governanceScore'', ''environmentScore'', ''socialScore'']"

text \<open>The columns of a formatted table that has all four scores.\<close>

definition formatted_columns :: "string list" where
  "formatted_columns = [''ticker'', ''timestamp'', ''last_processing_date''] @ score_columns"

text \<open>
  What holds of the tables collected so far, whatever the answers were: there is one
  table per successful ticker, each has the six columns kept at line 65 and one cell per
  column in every row, and the second cell of every row is one of the tickers asked.
\<close>

definition collected_ok :: "string list \<Rightarrow> fetch_state \<Rightarrow> bool" where
  "collected_ok tickers st =
     (length (all_data st) = successful_tickers st
      \<and> list_all (\<lambda>df. columns df = columns_to_keep \<and> wf_frame df
            \<and> list_all (\<lambda>r. r ! 1 \<in> set (map (\<lambda>t. Val (JStr t)) tickers)) (rows df))
          (all_data st))"

section \<open>Sample inputs\<close>

text \<open>A world that gives the same answer to every request.\<close>

definition fixed_world :: "http_result \<Rightarrow> env" where
  "fixed_world r =
     \<lparr>requests_get = (\<lambda>i ticker. r),
      random_uniform = (\<lambda>i. 3 / 2),
      to_datetime_other = (\<lambda>j. Inl ValueError)\<rparr>"

definition record_AAA :: json where
  "record_AAA =
     JObj [(''timestamp'', JInt 1609459200), (''esgScore'', JInt 45),
           (''governanceScore'', JInt 40), (''environmentScore'', JInt 50),
           (''socialScore'', JInt 46)]"

definition body_of_series :: "json \<Rightarrow> json" where
  "body_of_series series =
     JObj [(''esgChart'', JObj [(''result'', JArr [JObj [(''symbolSeries'', series)]])])]"

definition body_AAA :: json where
  "body_AAA = body_of_series (JArr [record_AAA])"

definition world_429 :: env where
  "world_429 = fixed_world (Response 429 None)"

definition world_404 :: env where
  "world_404 = fixed_world (Response 404 None)"

definition world_AAA :: env where
  "world_AAA = fixed_world (Response 200 (Some body_AAA))"

text \<open>The same world with other random draws.\<close>

definition world_AAA_quick :: env where
  "world_AAA_quick = world_AAA\<lparr>random_uniform := (\<lambda>i. 0)\<rparr>"

text \<open>A response without the path, and one whose result list is empty.\<close>

definition world_no_path :: env where
  "world_no_path = fixed_world (Response 200 (Some (JObj [(''error'', JStr ''none'')])))"

definition body_empty_result :: json where
  "body_empty_result = JObj [(''esgChart'', JObj [(''result'', JArr [])])]"

definition world_empty_result :: env where
  "world_empty_result = fixed_world (Response 200 (Some body_empty_result))"

text \<open>A series whose records have no \<^verbatim>\<open>socialScore\<close>.\<close>

definition series_no_social :: json where
  "series_no_social =
     JArr [JObj [(''timestamp'', JInt 1609459200), (''esgScore'', JInt 45),
                 (''governanceScore'', JInt 40), (''environmentScore'', JInt 50)]]"

definition world_no_social :: env where
  "world_no_social = fixed_world (Response 200 (Some (body_of_series series_no_social)))"

section \<open>Lists and rows\<close>

lemma set_first_seen: "set (first_seen xs) = set xs"
  by (simp add: first_seen_def)

lemma distinct_first_seen: "distinct (first_seen xs)"
  by (simp add: first_seen_def)

lemma first_seen_append_subset:
  assumes "distinct xs" and "set ys \<subseteq> set xs"
  shows "first_seen (xs @ ys) = xs"
proof -
  have "remdups (rev ys @ rev xs) = remdups (rev xs)"
    using assms(2) by (intro remdups_append) simp
  also have "\<dots> = rev xs"
    using assms(1) by (simp add: distinct_remdups_id)
  finally show ?thesis by (simp add: first_seen_def)
qed

lemma first_seen_concat_same:
  assumes "distinct ks" and "dfs \<noteq> []" and "\<forall>df \<in> set dfs. columns df = ks"
  shows "first_seen (concat (map columns dfs)) = ks"
proof (cases dfs)
  case Nil
  with assms(2) show ?thesis by simp
next
  case (Cons d ds)
  with assms(3) have "set (concat (map columns ds)) \<subseteq> set ks" by auto
  with Cons assms(1,3) show ?thesis
    by (simp add: first_seen_append_subset)
qed

lemma cells_named_Cons:
  "cells_named (c # cols) (x # r) n = (if c = n then x # cells_named cols r n else cells_named cols r n)"
  by (simp add: cells_named_def)

lemma cells_named_notin:
  "n \<notin> set cols \<Longrightarrow> cells_named cols r n = []"
proof (induction cols arbitrary: r)
  case Nil
  then show ?case by (simp add: cells_named_def)
next
  case (Cons c cols)
  show ?case
  proof (cases r)
    case Nil
    then show ?thesis by (simp add: cells_named_def)
  next
    case (Cons x r')
    with Cons.prems Cons.IH [of r'] show ?thesis by (auto simp: cells_named_Cons)
  qed
qed

lemma cells_named_single:
  assumes "distinct cols" and "length r = length cols" and "n \<in> set cols"
  shows "\<exists>x. cells_named cols r n = [x]"
  using assms
proof (induction cols arbitrary: r)
  case Nil
  then show ?case by simp
next
  case (Cons c cols)
  then obtain x r' where r: "r = x # r'" and len: "length r' = length cols"
    by (cases r) auto
  show ?case
  proof (cases "c = n")
    case True
    with Cons.prems(1) have "n \<notin> set cols" by simp
    with True r show ?thesis by (simp add: cells_named_Cons cells_named_notin)
  next
    case False
    with Cons.prems have "n \<in> set cols" and "distinct cols" by auto
    with Cons.IH [OF _ len] False r show ?thesis by (simp add: cells_named_Cons)
  qed
qed

lemma reindex_row_same:
  assumes "distinct cols" and "length r = length cols"
  shows "reindex_row cols cols r = r"
  using assms
proof (induction cols arbitrary: r)
  case Nil
  then show ?case by (simp add: reindex_row_def)
next
  case (Cons c cols)
  then obtain x r' where r: "r = x # r'" and len: "length r' = length cols"
    by (cases r) auto
  have "map (\<lambda>n. case cells_named (c # cols) (x # r') n of [] \<Rightarrow> NaN | y # ys \<Rightarrow> y) cols
        = map (\<lambda>n. case cells_named cols r' n of [] \<Rightarrow> NaN | y # ys \<Rightarrow> y) cols"
    using Cons.prems(1) by (intro map_cong) (auto simp: cells_named_Cons)
  also have "\<dots> = r'"
    using Cons.IH [of r'] Cons.prems(1) len by (simp add: reindex_row_def)
  finally show ?case using r by (simp add: reindex_row_def cells_named_Cons)
qed

lemma pd_concat_same_columns:
  assumes "distinct ks" and "dfs \<noteq> []"
    and "\<forall>df \<in> set dfs. columns df = ks \<and> wf_frame df"
  shows "pd_concat dfs = \<lparr>columns = ks, rows = concat (map rows dfs)\<rparr>"
proof -
  have cols: "first_seen (concat (map columns dfs)) = ks"
    using assms by (intro first_seen_concat_same) auto
  have m: "map (\<lambda>df. map (reindex_row ks (columns df)) (rows df)) dfs = map rows dfs"
  proof (rule map_cong [OF refl])
    fix df assume df: "df \<in> set dfs"
    with assms(3) have c: "columns df = ks" and w: "wf_frame df" by auto
    have "map (reindex_row ks ks) (rows df) = map (\<lambda>r. r) (rows df)"
      using w c assms(1) by (intro map_cong refl reindex_row_same) (auto simp: wf_frame_def list_all_iff)
    with c show "map (reindex_row ks (columns df)) (rows df) = rows df" by simp
  qed
  show ?thesis by (simp only: pd_concat_def Let_def cols m)
qed

section \<open>The shape of the tables built from a response\<close>

lemma is_dict_record_row: "is_dict x \<Longrightarrow> length (record_row cols x) = length cols"
  by (cases x) simp_all

lemma frame_from_records_shape:
  assumes "list_all is_dict recs"
  shows "distinct (columns (frame_from_records recs))"
    and "wf_frame (frame_from_records recs)"
    and "set (columns (frame_from_records recs)) = set (series_fields (JArr recs))"
  using assms
  by (simp_all add: frame_from_records_def Let_def distinct_first_seen set_first_seen
      wf_frame_def list_all_iff is_dict_record_row)

lemma frame_from_dict_shape:
  assumes "frame_from_dict kvs = Inr df"
  shows "distinct (columns df)" and "wf_frame df" and "set (columns df) \<subseteq> set (map fst kvs)"
proof -
  have d: "distinct (map fst (AList.clearjunk kvs))" by simp
  have s: "set (map fst (AList.clearjunk kvs)) = set (map fst kvs)"
    by (rule clearjunk_keys_set)
  from assms consider "df = empty_frame"
    | rs where "df = \<lparr>columns = map fst (AList.clearjunk kvs),
                       rows = map (\<lambda>k. map (series_cell k) (map snd (AList.clearjunk kvs))) rs\<rparr>"
    | n where "df = \<lparr>columns = map fst (AList.clearjunk kvs),
                      rows = map (\<lambda>i. map (array_cell i) (map snd (AList.clearjunk kvs))) [0..<n]\<rparr>"
    by (auto simp: frame_from_dict_def Let_def split: if_splits)
  then have "distinct (columns df) \<and> wf_frame df \<and> set (columns df) \<subseteq> set (map fst kvs)"
  proof cases
    case 1
    then show ?thesis by (simp add: empty_frame_def wf_frame_def)
  next
    case 2
    then show ?thesis using d s by (simp add: wf_frame_def list_all_iff)
  next
    case 3
    then show ?thesis using d s by (simp add: wf_frame_def list_all_iff)
  qed
  then show "distinct (columns df)" and "wf_frame df" and "set (columns df) \<subseteq> set (map fst kvs)"
    by simp_all
qed

lemma pd_DataFrame_shape:
  assumes "pd_DataFrame j = Inr df"
  shows "distinct (columns df)" and "wf_frame df" and "set (columns df) \<subseteq> set (series_fields j)"
proof -
  have "distinct (columns df) \<and> wf_frame df \<and> set (columns df) \<subseteq> set (series_fields j)"
  proof (cases j)
    case JNull
    with assms have "df = empty_frame" by simp
    then show ?thesis by (simp add: empty_frame_def wf_frame_def)
  next
    case (JArr xs)
    show ?thesis
    proof (cases xs)
      case Nil
      with JArr assms have "df = empty_frame" by simp
      then show ?thesis by (simp add: empty_frame_def wf_frame_def)
    next
      case (Cons x xs')
      with JArr assms obtain kvs where x: "x = JObj kvs" by (cases x) simp_all
      with JArr Cons assms have all: "list_all is_dict xs" and df: "df = frame_from_records xs"
        by (simp_all split: if_splits)
      from frame_from_records_shape [OF all] df JArr show ?thesis by simp
    qed
  next
    case (JObj kvs)
    with assms have "frame_from_dict kvs = Inr df" by simp
    from frame_from_dict_shape [OF this] JObj show ?thesis by simp
  qed (use assms in simp_all)
  then show "distinct (columns df)" and "wf_frame df" and "set (columns df) \<subseteq> set (series_fields j)"
    by simp_all
qed

lemma zip_map_relabel:
  "zip cols (map f (zip cols r)) = map (\<lambda>p. (fst p, f p)) (zip cols r)"
proof (induction cols arbitrary: r)
  case Nil
  then show ?case by simp
next
  case (Cons c cols)
  then show ?case by (cases r) simp_all
qed

lemma cells_named_relabel_same:
  "cells_named cols (map (\<lambda>(c, x). if c = name then v else x) (zip cols r)) name
     = map (\<lambda>x. v) (cells_named cols r name)"
  by (simp add: cells_named_def zip_map_relabel filter_map o_def case_prod_unfold)

lemma cells_named_relabel_other:
  "n \<noteq> name \<Longrightarrow>
   cells_named cols (map (\<lambda>(c, x). if c = name then v else x) (zip cols r)) n
     = cells_named cols r n"
proof -
  assume n: "n \<noteq> name"
  have "filter (\<lambda>(c, x). c = n) (map (\<lambda>p. (fst p, case p of (c, x) \<Rightarrow> if c = name then v else x)) (zip cols r))
        = map (\<lambda>p. (fst p, case p of (c, x) \<Rightarrow> if c = name then v else x)) (filter (\<lambda>(c, x). c = n) (zip cols r))"
    by (simp add: filter_map o_def case_prod_unfold)
  then show ?thesis
    using n by (simp add: cells_named_def zip_map_relabel case_prod_unfold cong: map_cong) 
qed

lemma cells_named_snoc:
  "length r = length cols \<Longrightarrow>
   cells_named (cols @ [name]) (r @ [v]) n = cells_named cols r n @ (if name = n then [v] else [])"
  by (simp add: cells_named_def)

lemma set_column_shape:
  assumes "distinct (columns df)" and "wf_frame df"
  shows "distinct (columns (set_column name v df))"
    and "wf_frame (set_column name v df)"
    and "set (columns (set_column name v df)) = insert name (set (columns df))"
    and "\<forall>r \<in> set (rows (set_column name v df)).
           cells_named (columns (set_column name v df)) r name = [v]"
proof -
  show "distinct (columns (set_column name v df))"
    using assms(1) by (simp add: set_column_def)
  show "wf_frame (set_column name v df)"
    using assms(2) by (auto simp: set_column_def wf_frame_def list_all_iff)
  show "set (columns (set_column name v df)) = insert name (set (columns df))"
    by (auto simp: set_column_def)
  show "\<forall>r \<in> set (rows (set_column name v df)).
          cells_named (columns (set_column name v df)) r name = [v]"
  proof (cases "name \<in> set (columns df)")
    case True
    have "cells_named (columns df) (map (\<lambda>(c, x). if c = name then v else x) (zip (columns df) r)) name = [v]"
      if "r \<in> set (rows df)" for r
    proof -
      from that assms(2) have "length r = length (columns df)"
        by (simp add: wf_frame_def list_all_iff)
      from cells_named_single [OF assms(1) this True]
      obtain x where "cells_named (columns df) r name = [x]" ..
      then show ?thesis by (simp add: cells_named_relabel_same)
    qed
    with True show ?thesis by (simp add: set_column_def)
  next
    case False
    have "cells_named (columns df @ [name]) (r @ [v]) name = [v]"
      if "r \<in> set (rows df)" for r
    proof -
      from that assms(2) have "length r = length (columns df)"
        by (simp add: wf_frame_def list_all_iff)
      with False show ?thesis by (simp add: cells_named_snoc cells_named_notin)
    qed
    with False show ?thesis by (simp add: set_column_def)
  qed
qed

lemma assign_column_shape:
  assumes "wf_frame df"
  shows "columns (assign_column name vs df) = columns df"
    and "wf_frame (assign_column name vs df)"
  using assms
  by (auto simp: assign_column_def wf_frame_def list_all_iff dest!: set_zip_leftD)

lemma assign_column_other:
  assumes "n \<noteq> name"
    and "\<forall>r \<in> set (rows df). cells_named (columns df) r n = [v]"
  shows "\<forall>r \<in> set (rows (assign_column name vs df)).
           cells_named (columns (assign_column name vs df)) r n = [v]"
  using assms
  by (auto simp: assign_column_def cells_named_relabel_other dest!: set_zip_leftD)

lemma filter_eq_distinct:
  "distinct xs \<Longrightarrow> n \<in> set xs \<Longrightarrow> filter (\<lambda>c. c = n) xs = [n]"
  by (induction xs) (auto simp: filter_empty_conv)

lemma select_columns_names:
  assumes "distinct cols" and "set names \<subseteq> set cols"
  shows "concat (map (\<lambda>n. filter (\<lambda>c. c = n) cols) names) = names"
  using assms(2)
proof (induction names)
  case Nil
  then show ?case by simp
next
  case (Cons n names)
  with assms(1) show ?case by (simp add: filter_eq_distinct)
qed

lemma select_row_length:
  assumes "distinct cols" and "length r = length cols" and "set names \<subseteq> set cols"
  shows "length (concat (map (cells_named cols r) names)) = length names"
  using assms(3)
proof (induction names)
  case Nil
  then show ?case by simp
next
  case (Cons n names)
  then have "n \<in> set cols" by simp
  from cells_named_single [OF assms(1,2) this]
  obtain x where "cells_named cols r n = [x]" ..
  with Cons show ?case by simp
qed

lemma select_columns_shape:
  assumes "select_columns names df = Inr df'"
    and "distinct (columns df)" and "wf_frame df"
  shows "columns df' = names" and "wf_frame df'"
    and "rows df' = map (\<lambda>r. concat (map (cells_named (columns df) r) names)) (rows df)"
proof -
  from assms(1) have sub: "set names \<subseteq> set (columns df)"
    and df': "df' = \<lparr>columns = concat (map (\<lambda>n. filter (\<lambda>c. c = n) (columns df)) names),
                     rows = map (\<lambda>r. concat (map (cells_named (columns df) r) names)) (rows df)\<rparr>"
    by (auto simp: select_columns_def list_all_iff split: if_splits)
  from df' select_columns_names [OF assms(2) sub] show c: "columns df' = names"
    by simp
  from df' show "rows df' = map (\<lambda>r. concat (map (cells_named (columns df) r) names)) (rows df)"
    by simp
  show "wf_frame df'"
    unfolding wf_frame_def list_all_iff
  proof
    fix r' assume "r' \<in> set (rows df')"
    with df' obtain r where r: "r \<in> set (rows df)"
      and r': "r' = concat (map (cells_named (columns df) r) names)"
      by auto
    from r assms(3) have "length r = length (columns df)"
      by (simp add: wf_frame_def list_all_iff)
    from select_row_length [OF assms(2) this sub] r' c
    show "length r' = length (columns df')" by simp
  qed
qed

lemma length6:
  "length r = 6 \<Longrightarrow> \<exists>a b c d e f. r = [a, b, c, d, e, f]"
  by (auto simp: numeral_eq_Suc length_Suc_conv)

lemma ticker_frame_shape:
  assumes "ticker_frame other ticker esg_data = Inr df"
  shows "columns df = columns_to_keep" and "wf_frame df"
    and "\<forall>r \<in> set (rows df). r ! 1 = Val (JStr ticker)"
proof -
  from assms obtain df0 col ts where
    df0: "pd_DataFrame esg_data = Inr df0"
    and sel: "select_columns columns_to_keep
                (assign_column ''timestamp'' ts (set_column ''ticker'' (Val (JStr ticker)) df0)) = Inr df"
    by (auto simp: ticker_frame_def Let_def split: sum.splits)
  let ?v = "Val (JStr ticker)"
  let ?df1 = "set_column ''ticker'' ?v df0"
  let ?df2 = "assign_column ''timestamp'' ts ?df1"
  note s0 = pd_DataFrame_shape(1,2) [OF df0]
  note s1 = set_column_shape [OF s0, of "''ticker''" ?v]
  note s2 = assign_column_shape [OF s1(2), of "''timestamp''" ts]
  have d2: "distinct (columns ?df2)" using s1(1) s2(1) by simp
  note s3 = select_columns_shape [OF sel d2 s2(2)]
  show "columns df = columns_to_keep" by (rule s3(1))
  show "wf_frame df" by (rule s3(2))
  have t2: "\<forall>r \<in> set (rows ?df2). cells_named (columns ?df2) r ''ticker'' = [?v]"
    by (rule assign_column_other [OF _ s1(4)]) simp
  show "\<forall>r \<in> set (rows df). r ! 1 = ?v"
  proof
    fix r' assume "r' \<in> set (rows df)"
    with s3(3) obtain r where r: "r \<in> set (rows ?df2)"
      and r': "r' = concat (map (cells_named (columns ?df2) r) columns_to_keep)"
      by auto
    from sel have sub: "set columns_to_keep \<subseteq> set (columns ?df2)"
      by (auto simp: select_columns_def list_all_iff split: if_splits)
    from r s2(2) have len: "length r = length (columns ?df2)"
      by (simp add: wf_frame_def list_all_iff)
    have "''timestamp'' \<in> set (columns ?df2)"
      using sub by (simp add: columns_to_keep_def)
    from cells_named_single [OF d2 len this]
    obtain x where x: "cells_named (columns ?df2) r ''timestamp'' = [x]" ..
    from t2 r have "cells_named (columns ?df2) r ''ticker'' = [?v]" by blast
    with x r' show "r' ! 1 = ?v" by (simp add: columns_to_keep_def)
  qed
qed

section \<open>The loop over the tickers\<close>

lemma extract_frame_Some:
  assumes "extract_frame other ticker data = Inr (Some df)"
  shows "\<exists>esg_data. symbol_series data = Inr esg_data \<and> ticker_frame other ticker esg_data = Inr df"
  using assms by (auto simp: extract_frame_def split: sum.splits bool.splits)

lemma process_ticker_cases:
  obtains (unchanged) "all_data (process_ticker world delay i ticker st) = all_data st"
      and "successful_tickers (process_ticker world delay i ticker st) = successful_tickers st"
    | (appended) code data df where "requests_get world i ticker = Response code (Some data)"
      and "response_ok code"
      and "extract_frame (to_datetime_other world) ticker data = Inr (Some df)"
      and "all_data (process_ticker world delay i ticker st) = all_data st @ [df]"
      and "successful_tickers (process_ticker world delay i ticker st) = Suc (successful_tickers st)"
proof (cases "requests_get world i ticker")
  case RequestException
  then have "all_data (process_ticker world delay i ticker st) = all_data st"
    and "successful_tickers (process_ticker world delay i ticker st) = successful_tickers st"
    by (simp_all add: process_ticker_def emit_def fail_def Let_def)
  then show ?thesis by (rule unchanged)
next
  case (Response code body)
  show ?thesis
  proof (cases "response_ok code")
    case False
    with Response have "all_data (process_ticker world delay i ticker st) = all_data st"
      and "successful_tickers (process_ticker world delay i ticker st) = successful_tickers st"
      by (simp_all add: process_ticker_def emit_def fail_def Let_def)
    then show ?thesis by (rule unchanged)
  next
    case True
    show ?thesis
    proof (cases body)
      case None
      with Response True have "all_data (process_ticker world delay i ticker st) = all_data st"
        and "successful_tickers (process_ticker world delay i ticker st) = successful_tickers st"
        by (simp_all add: process_ticker_def emit_def fail_def Let_def)
      then show ?thesis by (rule unchanged)
    next
      case (Some data)
      show ?thesis
      proof (cases "extract_frame (to_datetime_other world) ticker data")
        case (Inl e)
        with Response True Some have "all_data (process_ticker world delay i ticker st) = all_data st"
          and "successful_tickers (process_ticker world delay i ticker st) = successful_tickers st"
          by (simp_all add: process_ticker_def emit_def fail_def Let_def)
        then show ?thesis by (rule unchanged)
      next
        case (Inr res)
        show ?thesis
        proof (cases res)
          case None
          with Inr Response True Some have "all_data (process_ticker world delay i ticker st) = all_data st"
            and "successful_tickers (process_ticker world delay i ticker st) = successful_tickers st"
            by (simp_all add: process_ticker_def emit_def fail_def Let_def)
          then show ?thesis by (rule unchanged)
        next
          case (Some df)
          with Inr Response True \<open>body = Some data\<close>
          have "all_data (process_ticker world delay i ticker st) = all_data st @ [df]"
            and "successful_tickers (process_ticker world delay i ticker st) = Suc (successful_tickers st)"
            by (simp_all add: process_ticker_def emit_def fail_def Let_def)
          with Response True \<open>body = Some data\<close> Inr Some show ?thesis
            by (intro appended [of code data df]) simp_all
        qed
      qed
    qed
  qed
qed

lemma process_ticker_collected_ok:
  assumes "collected_ok tickers st" and "ticker \<in> set tickers"
  shows "collected_ok tickers (process_ticker world delay i ticker st)"
proof (cases rule: process_ticker_cases [of world delay i ticker st])
  case unchanged
  with assms(1) show ?thesis by (simp add: collected_ok_def)
next
  case (appended code data df)
  from extract_frame_Some [OF appended(3)] obtain esg_data
    where "ticker_frame (to_datetime_other world) ticker esg_data = Inr df" by blast
  note s = ticker_frame_shape [OF this]
  from s(3) assms(2) have "list_all (\<lambda>r. r ! 1 \<in> set (map (\<lambda>t. Val (JStr t)) tickers)) (rows df)"
    by (auto simp: list_all_iff)
  with s(1,2) assms(1) appended(4,5) show ?thesis
    by (simp add: collected_ok_def)
qed

lemma fetch_loop_collected_ok:
  assumes "collected_ok tickers st" and "set ts \<subseteq> set tickers"
  shows "collected_ok tickers (fetch_loop world delay i ts st)"
  using assms
proof (induction ts arbitrary: i st)
  case Nil
  then show ?case by simp
next
  case (Cons t ts)
  then show ?case by (simp add: process_ticker_collected_ok)
qed

lemma fetch_loop_initial_ok:
  "collected_ok tickers (fetch_loop world delay 1 tickers initial_state)"
  by (rule fetch_loop_collected_ok) (simp_all add: collected_ok_def initial_state_def)

lemma distinct_columns_to_keep: "distinct columns_to_keep"
  by (simp add: columns_to_keep_def)

lemma fetch_historical_esg_shape:
  assumes "fetch_historical_esg world delay tickers = (df, st)"
  shows "(successful_tickers st = 0 \<and> df = no_data_frame)
       \<or> (0 < successful_tickers st \<and> columns df = columns_to_keep \<and> wf_frame df
          \<and> list_all (\<lambda>r. r ! 1 \<in> set (map (\<lambda>t. Val (JStr t)) tickers)) (rows df))"
proof -
  from assms have st: "st = fetch_loop world delay 1 tickers initial_state"
    and df: "df = (if all_data st \<noteq> [] then pd_concat (all_data st) else no_data_frame)"
    by (auto simp: fetch_historical_esg_def Let_def)
  from fetch_loop_initial_ok [of tickers world delay] st
  have ok: "collected_ok tickers st" by simp
  show ?thesis
  proof (cases "all_data st = []")
    case True
    with ok df show ?thesis by (simp add: collected_ok_def)
  next
    case False
    from ok have "\<forall>d \<in> set (all_data st). columns d = columns_to_keep \<and> wf_frame d"
      by (simp add: collected_ok_def list_all_iff)
    from pd_concat_same_columns [OF distinct_columns_to_keep False this] df False
    have eq: "df = \<lparr>columns = columns_to_keep, rows = concat (map rows (all_data st))\<rparr>"
      by simp
    from ok have pos: "0 < successful_tickers st"
      using False by (cases "all_data st") (auto simp: collected_ok_def)
    from ok eq have "wf_frame df"
      by (auto simp: collected_ok_def wf_frame_def list_all_iff)
    moreover from ok eq have "list_all (\<lambda>r. r ! 1 \<in> set (map (\<lambda>t. Val (JStr t)) tickers)) (rows df)"
      by (auto simp: collected_ok_def list_all_iff)
    ultimately show ?thesis using pos eq by simp
  qed
qed

lemma format_row:
  assumes "length r = 6"
  shows "concat (map (cells_named
            [''timestamp'', ''ticker'', ''total_score'', ''governance_score'',
             ''environment_score'', ''social_score'', ''last_processing_date''] (r @ [v]))
            [''ticker'', ''timestamp'', ''last_processing_date'', ''total_score'',
             ''environment_score'', ''social_score'', ''governance_score''])
         = [r ! 1, r ! 0, v, r ! 2, r ! 4, r ! 5, r ! 3]"
proof -
  from length6 [OF assms] obtain a b c d e f where "r = [a, b, c, d, e, f]" by blast
  then show ?thesis by (simp add: cells_named_def)
qed

lemma format_esg_data_fetched:
  assumes "columns df = columns_to_keep" and "wf_frame df" and "rows df \<noteq> []"
  shows "format_esg_data today df =
           Inr \<lparr>columns = formatted_columns,
                rows = map (\<lambda>r. [r ! 1, r ! 0, Val (JStr today), r ! 2, r ! 4, r ! 5, r ! 3]) (rows df)\<rparr>"
proof -
  have ne: "\<not> df_empty df"
    using assms(1,3) by (simp add: df_empty_def columns_to_keep_def)
  have len: "\<forall>r \<in> set (rows df). length r = 6"
    using assms(1,2) by (simp add: wf_frame_def list_all_iff columns_to_keep_def)
  have ren: "columns (rename_columns column_mapping df) =
     [''timestamp'', ''ticker'', ''total_score'', ''governance_score'',
      ''environment_score'', ''social_score'']"
    using assms(1) by (simp add: rename_columns_def column_mapping_def columns_to_keep_def)
  have rr: "rows (rename_columns column_mapping df) = rows df"
    by (simp add: rename_columns_def)
  have set: "set_column ''last_processing_date'' (Val (JStr today)) (rename_columns column_mapping df)
     = \<lparr>columns = [''timestamp'', ''ticker'', ''total_score'', ''governance_score'',
                    ''environment_score'', ''social_score'', ''last_processing_date''],
        rows = map (\<lambda>r. r @ [Val (JStr today)]) (rows df)\<rparr>"
    by (simp add: set_column_def ren rr)
  have rows: "map (\<lambda>r. concat (map (cells_named
            [''timestamp'', ''ticker'', ''total_score'', ''governance_score'',
             ''environment_score'', ''social_score'', ''last_processing_date''] (r @ [Val (JStr today)]))
            [''ticker'', ''timestamp'', ''last_processing_date'', ''total_score'',
             ''environment_score'', ''social_score'', ''governance_score''])) (rows df)
     = map (\<lambda>r. [r ! 1, r ! 0, Val (JStr today), r ! 2, r ! 4, r ! 5, r ! 3]) (rows df)"
    using len by (intro map_cong refl format_row) simp
  show ?thesis
    using ne rows
    by (simp add: format_esg_data_def set Let_def score_columns_def select_columns_def
        formatted_columns_def o_def)
qed

section \<open>One iteration, case by case\<close>

lemma has_esg_result_False:
  assumes "\<not> has_esgChart_result data"
  shows "has_esg_result data = Inr False \<or> (\<exists>e. has_esg_result data = Inl e)
         \<or> (has_esg_result data = Inr True \<and> (\<exists>e. symbol_series data = Inl e))"
proof (cases data)
  case (JObj kvs)
  show ?thesis
  proof (cases "map_of kvs ''esgChart''")
    case None
    then have "''esgChart'' \<notin> set (map fst kvs)"
      by (simp add: map_of_eq_None_iff)
    then show ?thesis using JObj by (simp add: has_esg_result_def)
  next
    case (Some chart)
    then have k: "''esgChart'' \<in> set (map fst kvs)"
      by (metis map_of_eq_None_iff option.distinct(1) set_map)
    from assms JObj Some have nk: "\<not> has_key ''result'' chart"
      by (simp add: has_esgChart_result_def)
    show ?thesis
    proof (cases chart)
      case (JObj kvs')
      with nk JObj Some k \<open>data = JObj kvs\<close> show ?thesis
        by (simp add: has_esg_result_def)
    next
      case (JArr xs)
      with Some k \<open>data = JObj kvs\<close> show ?thesis
        by (cases "JStr ''result'' \<in> set xs") (simp_all add: has_esg_result_def symbol_series_def)
    next
      case (JStr s)
      with Some k \<open>data = JObj kvs\<close> show ?thesis
        by (cases "str_contains ''result'' s") (simp_all add: has_esg_result_def symbol_series_def)
    qed (use Some k \<open>data = JObj kvs\<close> in \<open>simp_all add: has_esg_result_def\<close>)
  qed
next
  case (JArr xs)
  then show ?thesis by (cases "JStr ''esgChart'' \<in> set xs") (simp_all add: has_esg_result_def symbol_series_def)
next
  case (JStr s)
  then show ?thesis by (cases "str_contains ''esgChart'' s") (simp_all add: has_esg_result_def symbol_series_def)
qed (simp_all add: has_esg_result_def)

lemma extract_frame_no_path:
  assumes "\<not> has_esgChart_result data"
  shows "extract_frame other ticker data = Inr None \<or> (\<exists>e. extract_frame other ticker data = Inl e)"
  using has_esg_result_False [OF assms]
  by (auto simp: extract_frame_def)

lemma process_ticker_failed:
  assumes "requests_get world i ticker = Response code (Some data)" and "response_ok code"
  shows "extract_frame (to_datetime_other world) ticker data = Inr None \<Longrightarrow>
           process_ticker world delay i ticker st =
             st\<lparr>failed_tickers := failed_tickers st + 1,
                trace := trace st @ [Sleep (delay + random_uniform world i), Get ticker,
                                     Print (No_ESG_data ticker)]\<rparr>"
    and "extract_frame (to_datetime_other world) ticker data = Inl e \<Longrightarrow>
           process_ticker world delay i ticker st =
             st\<lparr>failed_tickers := failed_tickers st + 1,
                trace := trace st @ [Sleep (delay + random_uniform world i), Get ticker,
                                     Print (Error_processing ticker)]\<rparr>"
  using assms by (simp_all add: process_ticker_def emit_def fail_def)


section \<open>The sample response\<close>

lemma ticker_frame_AAA:
  "ticker_frame other ticker (JArr [record_AAA]) =
     Inr \<lparr>columns = columns_to_keep,
          rows = [[Timestamp 1609459200000000000, Val (JStr ticker), Val (JInt 45),
                   Val (JInt 40), Val (JInt 50), Val (JInt 46)]]\<rparr>"
  by (simp add: ticker_frame_def record_AAA_def frame_from_records_def first_seen_def
      record_cell_def set_column_def get_column_def cells_named_def assign_column_def
      select_columns_def columns_to_keep_def Let_def)

lemma extract_frame_AAA:
  "extract_frame other ticker body_AAA =
     Inr (Some \<lparr>columns = columns_to_keep,
          rows = [[Timestamp 1609459200000000000, Val (JStr ticker), Val (JInt 45),
                   Val (JInt 40), Val (JInt 50), Val (JInt 46)]]\<rparr>)"
  by (simp add: extract_frame_def has_esg_result_def symbol_series_def body_AAA_def
      body_of_series_def ticker_frame_AAA)

lemma process_ticker_AAA:
  assumes "requests_get world i ticker = Response code (Some body_AAA)" and "response_ok code"
  shows "process_ticker world delay i ticker st =
     st\<lparr>all_data := all_data st @
           [\<lparr>columns = columns_to_keep,
             rows = [[Timestamp 1609459200000000000, Val (JStr ticker), Val (JInt 45),
                      Val (JInt 40), Val (JInt 50), Val (JInt 46)]]\<rparr>],
        successful_tickers := successful_tickers st + 1,
        trace := trace st @ [Sleep (delay + random_uniform world i), Get ticker,
                             Print (Successfully_fetched ticker)]\<rparr>"
  using assms by (simp add: process_ticker_def extract_frame_AAA emit_def Let_def)

lemma pd_concat_single:
  "pd_concat [\<lparr>columns = columns_to_keep, rows = [[a, b, c, d, e, f]]\<rparr>]
     = \<lparr>columns = columns_to_keep, rows = [[a, b, c, d, e, f]]\<rparr>"
  by (rule trans [OF pd_concat_same_columns [OF distinct_columns_to_keep]])
     (simp_all add: wf_frame_def columns_to_keep_def)

lemma fetch_AAA:
  assumes "requests_get world 1 ''AAA'' = Response code (Some body_AAA)" and "response_ok code"
  shows "fst (fetch_historical_esg world delay [''AAA'']) =
           \<lparr>columns = columns_to_keep,
            rows = [[Timestamp 1609459200000000000, Val (JStr ''AAA''), Val (JInt 45),
                     Val (JInt 40), Val (JInt 50), Val (JInt 46)]]\<rparr>"
  using assms
  by (simp add: fetch_historical_esg_def process_ticker_AAA initial_state_def pd_concat_single Let_def)

lemma isoformat_2021: "isoformat 1609459200000000000 = ''2021-01-01T00:00:00''"
  by code_simp


section \<open>Fetching, then formatting\<close>

lemma no_data_frame_empty: "df_empty no_data_frame" "rows no_data_frame = []"
  by (simp_all add: df_empty_def no_data_frame_def)

text \<open>The two outcomes of fetching then formatting.\<close>

lemma formatted_fetch_cases:
  obtains (no_rows) "rows (fst (fetch_historical_esg world delay tickers)) = []"
      and "format_esg_data today (fst (fetch_historical_esg world delay tickers)) =
             Inr (fst (fetch_historical_esg world delay tickers))"
    | (some_rows) "columns (fst (fetch_historical_esg world delay tickers)) = columns_to_keep"
      and "wf_frame (fst (fetch_historical_esg world delay tickers))"
      and "rows (fst (fetch_historical_esg world delay tickers)) \<noteq> []"
      and "list_all (\<lambda>r. r ! 1 \<in> set (map (\<lambda>t. Val (JStr t)) tickers))
             (rows (fst (fetch_historical_esg world delay tickers)))"
      and "format_esg_data today (fst (fetch_historical_esg world delay tickers)) =
             Inr \<lparr>columns = formatted_columns,
                  rows = map (\<lambda>r. [r ! 1, r ! 0, Val (JStr today), r ! 2, r ! 4, r ! 5, r ! 3])
                             (rows (fst (fetch_historical_esg world delay tickers)))\<rparr>"
proof -
  obtain df st where f: "fetch_historical_esg world delay tickers = (df, st)"
    by (cases "fetch_historical_esg world delay tickers")
  show ?thesis
  proof (cases "rows df = []")
    case True
    then have "format_esg_data today df = Inr df"
      by (simp add: format_esg_data_def df_empty_def)
    with True f show ?thesis by (intro no_rows) simp_all
  next
    case False
    with fetch_historical_esg_shape [OF f] no_data_frame_empty(2)
    have s: "columns df = columns_to_keep" "wf_frame df"
      "list_all (\<lambda>r. r ! 1 \<in> set (map (\<lambda>t. Val (JStr t)) tickers)) (rows df)"
      by auto
    from format_esg_data_fetched [OF s(1,2) False, of today] s False f
    show ?thesis by (intro some_rows) simp_all
  qed
qed

lemma column_values_formatted:
  "column_values ''ticker''
     \<lparr>columns = formatted_columns, rows = map (\<lambda>r. [a r, b r, c r, d r, e r, f r, g r]) rs\<rparr>
   = map a rs"
  "column_values ''last_processing_date''
     \<lparr>columns = formatted_columns, rows = map (\<lambda>r. [a r, b r, c r, d r, e r, f r, g r]) rs\<rparr>
   = map c rs"
  by (induction rs)
     (simp_all add: column_values_def cells_named_def formatted_columns_def score_columns_def)

lemma drop_column_formatted:
  "drop_column ''last_processing_date''
     \<lparr>columns = formatted_columns, rows = map (\<lambda>r. [a r, b r, c r, d r, e r, f r, g r]) rs\<rparr>
   = \<lparr>columns = [''ticker'', ''timestamp'', ''total_score'', ''environment_score'',
                  ''social_score'', ''governance_score''],
      rows = map (\<lambda>r. [a r, b r, d r, e r, f r, g r]) rs\<rparr>"
  by (simp add: drop_column_def formatted_columns_def score_columns_def)

lemma column_values_no_rows: "rows df = [] \<Longrightarrow> column_values name df = []"
  by (simp add: column_values_def)

lemma process_ticker_same_answers:
  assumes "requests_get w1 = requests_get w2"
    and "to_datetime_other w1 = to_datetime_other w2"
    and "all_data st1 = all_data st2"
    and "successful_tickers st1 = successful_tickers st2"
    and "failed_tickers st1 = failed_tickers st2"
  shows "all_data (process_ticker w1 d1 i ticker st1) = all_data (process_ticker w2 d2 i ticker st2)"
    and "successful_tickers (process_ticker w1 d1 i ticker st1)
           = successful_tickers (process_ticker w2 d2 i ticker st2)"
    and "failed_tickers (process_ticker w1 d1 i ticker st1)
           = failed_tickers (process_ticker w2 d2 i ticker st2)"
  using assms
  by (simp_all add: process_ticker_def emit_def fail_def Let_def
      split: http_result.splits option.splits sum.splits)

lemma fetch_loop_same_answers:
  assumes "requests_get w1 = requests_get w2"
    and "to_datetime_other w1 = to_datetime_other w2"
    and "all_data st1 = all_data st2"
    and "successful_tickers st1 = successful_tickers st2"
    and "failed_tickers st1 = failed_tickers st2"
  shows "all_data (fetch_loop w1 d1 i ts st1) = all_data (fetch_loop w2 d2 i ts st2)
       \<and> successful_tickers (fetch_loop w1 d1 i ts st1) = successful_tickers (fetch_loop w2 d2 i ts st2)
       \<and> failed_tickers (fetch_loop w1 d1 i ts st1) = failed_tickers (fetch_loop w2 d2 i ts st2)"
  using assms(3-5)
proof (induction ts arbitrary: i st1 st2)
  case Nil
  then show ?case by simp
next
  case (Cons t ts)
  note p = process_ticker_same_answers [OF assms(1,2) Cons.prems, of d1 i t d2]
  from Cons.IH [OF p] show ?case by simp
qed

lemma fetch_same_answers:
  assumes "requests_get w1 = requests_get w2"
    and "to_datetime_other w1 = to_datetime_other w2"
  shows "fst (fetch_historical_esg w1 d1 tickers) = fst (fetch_historical_esg w2 d2 tickers)"
  using fetch_loop_same_answers [OF assms refl refl refl, of d1 1 tickers initial_state d2]
  by (simp add: fetch_historical_esg_def Let_def)

lemma format_esg_data_columns:
  assumes "format_esg_data today df = Inr out" and "\<not> df_empty df"
    and "distinct (columns (rename_columns column_mapping df))"
  shows "columns out =
           [''ticker'', ''timestamp'', ''last_processing_date'']
           @ filter (\<lambda>col. col \<in> set (columns (rename_columns column_mapping df))) score_columns"
proof -
  let ?df1 = "rename_columns column_mapping df"
  let ?df2 = "set_column ''last_processing_date'' (Val (JStr today)) ?df1"
  let ?cols = "[''ticker'', ''timestamp'', ''last_processing_date'']
               @ filter (\<lambda>col. col \<in> set (columns ?df2)) score_columns"
  from assms(1,2) have sel: "select_columns ?cols ?df2 = Inr out"
    by (simp add: format_esg_data_def Let_def)
  then have sub: "set ?cols \<subseteq> set (columns ?df2)"
    by (auto simp: select_columns_def list_all_iff split: if_splits)
  have d2: "distinct (columns ?df2)"
    using assms(3) by (simp add: set_column_def)
  from sel have "columns out = concat (map (\<lambda>n. filter (\<lambda>c. c = n) (columns ?df2)) ?cols)"
    by (auto simp: select_columns_def split: if_splits)
  also have "\<dots> = ?cols"
    by (rule select_columns_names [OF d2 sub])
  also have "filter (\<lambda>col. col \<in> set (columns ?df2)) score_columns
             = filter (\<lambda>col. col \<in> set (columns ?df1)) score_columns"
    by (rule filter_cong) (auto simp: set_column_def score_columns_def)
  finally show ?thesis .
qed

lemma fetch_world_AAA:
  "fst (fetch_historical_esg world_AAA delay [''AAA'']) =
           \<lparr>columns = columns_to_keep,
            rows = [[Timestamp 1609459200000000000, Val (JStr ''AAA''), Val (JInt 45),
                     Val (JInt 40), Val (JInt 50), Val (JInt 46)]]\<rparr>"
  by (rule fetch_AAA [of _ 200]) (simp_all add: world_AAA_def fixed_world_def response_ok_def)

lemma format_world_AAA:
  "format_esg_data today (fst (fetch_historical_esg world_AAA delay [''AAA''])) =
     Inr \<lparr>columns = formatted_columns,
          rows = [[Val (JStr ''AAA''), Timestamp 1609459200000000000, Val (JStr today),
                   Val (JInt 45), Val (JInt 50), Val (JInt 46), Val (JInt 40)]]\<rparr>"
proof -
  have "format_esg_data today (fst (fetch_historical_esg world_AAA delay [''AAA''])) =
     Inr \<lparr>columns = formatted_columns,
          rows = map (\<lambda>r. [r ! 1, r ! 0, Val (JStr today), r ! 2, r ! 4, r ! 5, r ! 3])
                   (rows (fst (fetch_historical_esg world_AAA delay [''AAA''])))\<rparr>"
    by (rule format_esg_data_fetched)
       (simp_all add: fetch_world_AAA wf_frame_def columns_to_keep_def)
  then show ?thesis by (simp add: fetch_world_AAA)
qed

text \<open>
  The same series given column by column, the other shape \<^verbatim>\<open>pd.DataFrame\<close> accepts,
  leads to the same table.
\<close>

lemma ticker_frame_columns_AAA:
  "ticker_frame other ticker
     (JObj [(''timestamp'', JArr [JInt 1609459200]), (''esgScore'', JArr [JInt 45]),
            (''governanceScore'', JArr [JInt 40]), (''environmentScore'', JArr [JInt 50]),
            (''socialScore'', JArr [JInt 46])])
   = ticker_frame other ticker (JArr [record_AAA])"
  by (simp add: ticker_frame_AAA)
     (simp add: ticker_frame_def frame_from_dict_def first_seen_def set_column_def
       get_column_def cells_named_def assign_column_def select_columns_def columns_to_keep_def
       Let_def)

lemma fetch_world_404:
  "fetch_historical_esg world_404 2 [''AAA''] =
     (no_data_frame,
      \<lparr>all_data = [], successful_tickers = 0, failed_tickers = 1,
       trace = [Sleep (7 / 2), Get ''AAA'', Print (Error_fetching ''AAA'' 404)]\<rparr>)"
  by (simp add: fetch_historical_esg_def process_ticker_def world_404_def fixed_world_def
      response_ok_def emit_def fail_def initial_state_def Let_def)

lemma symbol_series_has_result:
  assumes "symbol_series data = Inr series"
  shows "has_esg_result data = Inr True"
proof -
  from assms obtain chart result where c: "py_getitem data ''esgChart'' = Inr chart"
    and r: "py_getitem chart ''result'' = Inr result"
    by (auto simp: symbol_series_def split: sum.splits)
  obtain kvs where d: "data = JObj kvs" using c by (cases data) simp_all
  obtain kvs' where c': "chart = JObj kvs'" using r by (cases chart) simp_all
  have "''esgChart'' \<in> set (map fst kvs)"
    using c d by (auto split: option.splits dest: map_of_SomeD intro: rev_image_eqI)
  moreover have "''result'' \<in> set (map fst kvs')"
    using r c' by (auto split: option.splits dest: map_of_SomeD intro: rev_image_eqI)
  ultimately show ?thesis
    using c d c' by (simp add: has_esg_result_def)
qed

lemma select_columns_missing:
  assumes "field \<in> set names" and "field \<notin> set (columns df)"
  shows "select_columns names df = Inl KeyError"
  using assms by (auto simp: select_columns_def list_all_iff)

lemma ticker_frame_missing_field:
  assumes "field \<in> set score_fields" and "field \<notin> set (series_fields series)"
  shows "\<exists>e. ticker_frame other ticker series = Inl e"
proof (cases "pd_DataFrame series")
  case (Inl e)
  then show ?thesis by (simp add: ticker_frame_def)
next
  case (Inr df0)
  let ?df = "set_column ''ticker'' (Val (JStr ticker)) df0"
  from pd_DataFrame_shape(3) [OF Inr] assms(2) have "field \<notin> set (columns df0)" by auto
  moreover from assms(1) have "field \<noteq> ''ticker''" and k: "field \<in> set columns_to_keep"
    by (auto simp: score_fields_def columns_to_keep_def)
  ultimately have n: "field \<notin> set (columns ?df)"
    by (simp add: set_column_def)
  show ?thesis
  proof (cases "get_column ''timestamp'' ?df")
    case (Inl e)
    with Inr show ?thesis by (simp add: ticker_frame_def)
  next
    case col: (Inr col)
    show ?thesis
    proof (cases "to_datetime other col")
      case (Inl e)
      with Inr col show ?thesis by (simp add: ticker_frame_def)
    next
      case ts: (Inr ts)
      from n have "field \<notin> set (columns (assign_column ''timestamp'' ts ?df))"
        by (simp add: assign_column_def)
      from select_columns_missing [OF k this] Inr col ts show ?thesis
        by (simp add: ticker_frame_def)
    qed
  qed
qed


section \<open>The properties\<close>

text \<open>
  C3. For the single ticker \<^verbatim>\<open>AAA\<close> and a 2xx response with the body
  \<^verbatim>\<open>{"esgChart":{"result":[{"symbolSeries":[{"timestamp":1609459200,"esgScore":45,
  "governanceScore":40,"environmentScore":50,"socialScore":46}]}]}}\<close>, the fetched and then
  formatted table has exactly one row: ticker AAA, the instant 1609459200 s (printed as
  2021-01-01T00:00:00), the processing date, total score 45, environment score 50, social
  score 46, governance score 40.
\<close>

theorem single_record_AAA_output:
  assumes "requests_get world 1 ''AAA'' = Response code (Some body_AAA)"
    and "200 \<le> code" and "code < 300"
  shows "format_esg_data today (fst (fetch_historical_esg world delay [''AAA''])) =
           Inr \<lparr>columns = [''ticker'', ''timestamp'', ''last_processing_date'', ''total_score'',
                           ''environment_score'', ''social_score'', ''governance_score''],
                rows = [[Val (JStr ''AAA''), Timestamp 1609459200000000000, Val (JStr today),
                         Val (JInt 45), Val (JInt 50), Val (JInt 46), Val (JInt 40)]]\<rparr>
       \<and> isoformat 1609459200000000000 = ''2021-01-01T00:00:00''"
proof -
  have ok: "response_ok code" using assms(2,3) by (simp add: response_ok_def)
  note f = fetch_AAA [OF assms(1) ok, of delay]
  have "format_esg_data today (fst (fetch_historical_esg world delay [''AAA''])) =
     Inr \<lparr>columns = formatted_columns,
          rows = map (\<lambda>r. [r ! 1, r ! 0, Val (JStr today), r ! 2, r ! 4, r ! 5, r ! 3])
                   (rows (fst (fetch_historical_esg world delay [''AAA''])))\<rparr>"
    by (rule format_esg_data_fetched) (simp_all add: f wf_frame_def columns_to_keep_def)
  then show ?thesis
    by (simp add: f formatted_columns_def score_columns_def isoformat_2021)
qed

theorem single_record_AAA_output_witness:
  "requests_get world_AAA 1 ''AAA'' = Response 200 (Some body_AAA)
   \<and> format_esg_data ''2026-11-06'' (fst (fetch_historical_esg world_AAA 5 [''AAA''])) =
       Inr \<lparr>columns = [''ticker'', ''timestamp'', ''last_processing_date'', ''total_score'',
                       ''environment_score'', ''social_score'', ''governance_score''],
            rows = [[Val (JStr ''AAA''), Timestamp 1609459200000000000, Val (JStr ''2026-11-06''),
                     Val (JInt 45), Val (JInt 50), Val (JInt 46), Val (JInt 40)]]\<rparr>"
proof -
  have h: "requests_get world_AAA 1 ''AAA'' = Response 200 (Some body_AAA)"
    by (simp add: world_AAA_def fixed_world_def)
  from single_record_AAA_output [OF h, of "''2026-11-06''" 5] h show ?thesis by simp
qed

text \<open>
  C4. When the request for a ticker is answered with status 429, the iteration sleeps the
  pacing delay, sends the one request, prints the rate-limit line and sleeps 10 seconds;
  no table is added and neither counter changes, the ticker is not requested again, and
  the loop goes on with the next ticker.
\<close>

theorem rate_limited_ticker_is_dropped:
  assumes "requests_get world i ticker = Response 429 body"
  shows "process_ticker world delay i ticker st =
           st\<lparr>trace := trace st @ [Sleep (delay + random_uniform world i), Get ticker,
                                    Print (Rate_limited ticker), Sleep 10]\<rparr>
       \<and> fetch_loop world delay i (ticker # rest) st =
           fetch_loop world delay (Suc i) rest
             (st\<lparr>trace := trace st @ [Sleep (delay + random_uniform world i), Get ticker,
                                      Print (Rate_limited ticker), Sleep 10]\<rparr>)"
  using assms by (simp add: process_ticker_def emit_def response_ok_def)

theorem rate_limited_ticker_is_dropped_witness:
  "requests_get world_429 1 ''AAA'' = Response 429 None
   \<and> fetch_loop world_429 2 1 [''AAA''] initial_state =
       \<lparr>all_data = [], successful_tickers = 0, failed_tickers = 0,
        trace = [Sleep (7 / 2), Get ''AAA'', Print (Rate_limited ''AAA''), Sleep 10]\<rparr>"
proof -
  have h: "requests_get world_429 1 ''AAA'' = Response 429 None"
    by (simp add: world_429_def fixed_world_def)
  have r: "random_uniform world_429 1 = 3 / 2"
    by (simp add: world_429_def fixed_world_def)
  from rate_limited_ticker_is_dropped [OF h, of 2 initial_state "[]"] h r
  show ?thesis by (simp add: initial_state_def)
qed

text \<open>
  C5. When a 2xx response parses to a value without the path \<^verbatim>\<open>esgChart.result\<close>,
  the iteration adds no table, adds exactly one to the count of failed tickers (after
  printing the no-data line, or the processing-error line when the test of line 53
  itself raises), and the loop goes on with the next ticker.
\<close>

theorem missing_result_path_counts_as_failed:
  assumes "requests_get world i ticker = Response code (Some data)"
    and "200 \<le> code" and "code < 300"
    and "\<not> has_esgChart_result data"
  shows "\<exists>m. (m = No_ESG_data ticker \<or> m = Error_processing ticker)
            \<and> process_ticker world delay i ticker st =
                st\<lparr>failed_tickers := failed_tickers st + 1,
                   trace := trace st @ [Sleep (delay + random_uniform world i), Get ticker, Print m]\<rparr>
            \<and> fetch_loop world delay i (ticker # rest) st =
                fetch_loop world delay (Suc i) rest
                  (st\<lparr>failed_tickers := failed_tickers st + 1,
                      trace := trace st @ [Sleep (delay + random_uniform world i), Get ticker, Print m]\<rparr>)"
proof -
  have ok: "response_ok code" using assms(2,3) by (simp add: response_ok_def)
  from extract_frame_no_path [OF assms(4), of "to_datetime_other world" ticker]
  show ?thesis
  proof
    assume "extract_frame (to_datetime_other world) ticker data = Inr None"
    from process_ticker_failed(1) [OF assms(1) ok this, of delay st]
    show ?thesis by (intro exI [of _ "No_ESG_data ticker"]) simp
  next
    assume "\<exists>e. extract_frame (to_datetime_other world) ticker data = Inl e"
    then obtain e where "extract_frame (to_datetime_other world) ticker data = Inl e" ..
    from process_ticker_failed(2) [OF assms(1) ok this, of delay st]
    show ?thesis by (intro exI [of _ "Error_processing ticker"]) simp
  qed
qed

theorem missing_result_path_counts_as_failed_witness:
  "requests_get world_no_path 1 ''AAA'' = Response 200 (Some (JObj [(''error'', JStr ''none'')]))
   \<and> \<not> has_esgChart_result (JObj [(''error'', JStr ''none'')])
   \<and> all_data (fetch_loop world_no_path 2 1 [''AAA''] initial_state) = []
   \<and> successful_tickers (fetch_loop world_no_path 2 1 [''AAA''] initial_state) = 0
   \<and> failed_tickers (fetch_loop world_no_path 2 1 [''AAA''] initial_state) = 1"
proof -
  have h: "requests_get world_no_path 1 ''AAA'' = Response 200 (Some (JObj [(''error'', JStr ''none'')]))"
    by (simp add: world_no_path_def fixed_world_def)
  have p: "\<not> has_esgChart_result (JObj [(''error'', JStr ''none'')])"
    by (simp add: has_esgChart_result_def)
  from missing_result_path_counts_as_failed [OF h _ _ p, of 2 initial_state "[]"] h p
  show ?thesis by (auto simp: initial_state_def)
qed

text \<open>
  C10. When a 2xx response has the keys \<^verbatim>\<open>esgChart\<close> and \<^verbatim>\<open>esgChart.result\<close> and
  the result list is empty, taking its first element raises \<^verbatim>\<open>IndexError\<close>, which the
  handler of line 88 catches: no table is added, the count of failed tickers goes up by
  one, and the loop goes on with the next ticker.
\<close>

theorem empty_result_list_counts_as_failed:
  assumes "requests_get world i ticker = Response code (Some data)"
    and "200 \<le> code" and "code < 300"
    and "py_getitem data ''esgChart'' = Inr chart"
    and "py_getitem chart ''result'' = Inr (JArr [])"
  shows "has_esg_result data = Inr True
       \<and> symbol_series data = Inl IndexError
       \<and> process_ticker world delay i ticker st =
           st\<lparr>failed_tickers := failed_tickers st + 1,
              trace := trace st @ [Sleep (delay + random_uniform world i), Get ticker,
                                   Print (Error_processing ticker)]\<rparr>
       \<and> fetch_loop world delay i (ticker # rest) st =
           fetch_loop world delay (Suc i) rest
             (st\<lparr>failed_tickers := failed_tickers st + 1,
                 trace := trace st @ [Sleep (delay + random_uniform world i), Get ticker,
                                      Print (Error_processing ticker)]\<rparr>)"
proof -
  have ok: "response_ok code" using assms(2,3) by (simp add: response_ok_def)
  have ss: "symbol_series data = Inl IndexError"
    using assms(4,5) by (simp add: symbol_series_def)
  obtain kvs where d: "data = JObj kvs" using assms(4) by (cases data) simp_all
  obtain kvs' where c: "chart = JObj kvs'" using assms(5) by (cases chart) simp_all
  have "''esgChart'' \<in> set (map fst kvs)"
    using assms(4) d by (auto split: option.splits dest: map_of_SomeD intro: rev_image_eqI)
  moreover have "''result'' \<in> set (map fst kvs')"
    using assms(5) c by (auto split: option.splits dest: map_of_SomeD intro: rev_image_eqI)
  ultimately have t: "has_esg_result data = Inr True"
    using assms(4) d c by (simp add: has_esg_result_def)
  with ss have "extract_frame (to_datetime_other world) ticker data = Inl IndexError"
    by (simp add: extract_frame_def)
  from process_ticker_failed(2) [OF assms(1) ok this, of delay st] ss t
  show ?thesis by simp
qed

theorem empty_result_list_counts_as_failed_witness:
  "requests_get world_empty_result 1 ''AAA'' = Response 200 (Some body_empty_result)
   \<and> py_getitem body_empty_result ''esgChart'' = Inr (JObj [(''result'', JArr [])])
   \<and> py_getitem (JObj [(''result'', JArr [])]) ''result'' = Inr (JArr [])
   \<and> symbol_series body_empty_result = Inl IndexError
   \<and> fetch_loop world_empty_result 2 1 [''AAA''] initial_state =
       \<lparr>all_data = [], successful_tickers = 0, failed_tickers = 1,
        trace = [Sleep (7 / 2), Get ''AAA'', Print (Error_processing ''AAA'')]\<rparr>"
proof -
  have h: "requests_get world_empty_result 1 ''AAA'' = Response 200 (Some body_empty_result)"
    by (simp add: world_empty_result_def fixed_world_def)
  have r: "random_uniform world_empty_result 1 = 3 / 2"
    by (simp add: world_empty_result_def fixed_world_def)
  have c: "py_getitem body_empty_result ''esgChart'' = Inr (JObj [(''result'', JArr [])])"
    by (simp add: body_empty_result_def)
  have e: "py_getitem (JObj [(''result'', JArr [])]) ''result'' = Inr (JArr [])"
    by simp
  from empty_result_list_counts_as_failed [OF h _ _ c e, of 2 initial_state "[]"] h r c e
  show ?thesis by (simp add: initial_state_def)
qed

text \<open>
  C1, as stated, fails. When every request is answered with status 404 no ticker
  succeeds, and the table returned has no rows, but its column set is the set of columns
  of a formatted table, not a different one: its columns are those that formatting gives
  the table fetched for the sample response.
\<close>

theorem no_success_columns_counterexample:
  "successful_tickers (snd (fetch_historical_esg world_404 2 [''AAA''])) = 0
   \<and> rows (fst (fetch_historical_esg world_404 2 [''AAA''])) = []
   \<and> \<not> set (columns (fst (fetch_historical_esg world_404 2 [''AAA'']))) \<noteq>
         {''ticker'', ''timestamp'', ''last_processing_date'', ''total_score'',
          ''environment_score'', ''social_score'', ''governance_score''}
   \<and> map_sum id columns
         (format_esg_data ''2026-11-06'' (fst (fetch_historical_esg world_AAA 2 [''AAA''])))
       = Inr (columns (fst (fetch_historical_esg world_404 2 [''AAA''])))"
  by (simp add: fetch_world_404 no_data_frame_def format_world_AAA formatted_columns_def
      score_columns_def)

text \<open>
  C1, amended. If no ticker succeeds, \<^verbatim>\<open>fetch_historical_esg\<close> returns a table without
  rows whose columns are exactly those of a formatted table, in the same order (lines 106
  and 107); formatting that table returns it unchanged.
\<close>

theorem no_success_returns_formatted_schema:
  assumes "successful_tickers (snd (fetch_historical_esg world delay tickers)) = 0"
  shows "fst (fetch_historical_esg world delay tickers) =
           \<lparr>columns = [''ticker'', ''timestamp'', ''last_processing_date'', ''total_score'',
                       ''environment_score'', ''social_score'', ''governance_score''],
            rows = []\<rparr>
       \<and> format_esg_data today (fst (fetch_historical_esg world delay tickers)) =
           Inr (fst (fetch_historical_esg world delay tickers))"
proof -
  obtain df st where f: "fetch_historical_esg world delay tickers = (df, st)"
    by (cases "fetch_historical_esg world delay tickers")
  with assms fetch_historical_esg_shape [OF f] have "df = no_data_frame" by auto
  with f show ?thesis
    by (simp add: no_data_frame_def format_esg_data_def df_empty_def)
qed

theorem no_success_returns_formatted_schema_witness:
  "successful_tickers (snd (fetch_historical_esg world_404 2 [''AAA''])) = 0
   \<and> format_esg_data ''2026-11-06'' (fst (fetch_historical_esg world_404 2 [''AAA''])) =
           Inr \<lparr>columns = [''ticker'', ''timestamp'', ''last_processing_date'', ''total_score'',
                       ''environment_score'', ''social_score'', ''governance_score''],
            rows = []\<rparr>"
proof -
  have h: "successful_tickers (snd (fetch_historical_esg world_404 2 [''AAA''])) = 0"
    by (simp add: fetch_world_404)
  from no_success_returns_formatted_schema [OF h, of "''2026-11-06''"] h show ?thesis by metis
qed

text \<open>
  C2. For every fetched table that is not empty, formatting succeeds and the columns of
  the result are ticker, timestamp, last\_processing\_date, followed by those of
  total\_score, environment\_score, social\_score, governance\_score that the renamed input
  has, in that order. (A fetched table that is not empty has all four, see C9.)
\<close>

theorem formatted_columns_of_fetched_table:
  assumes "\<not> df_empty (fst (fetch_historical_esg world delay tickers))"
  shows "\<exists>out. format_esg_data today (fst (fetch_historical_esg world delay tickers)) = Inr out
          \<and> columns out =
              [''ticker'', ''timestamp'', ''last_processing_date'']
              @ filter (\<lambda>col. col \<in> set (columns (rename_columns column_mapping
                                   (fst (fetch_historical_esg world delay tickers)))))
                  score_columns"
proof (cases rule: formatted_fetch_cases [of world delay tickers today])
  case no_rows
  with assms show ?thesis by (simp add: df_empty_def)
next
  case some_rows
  have "distinct (columns (rename_columns column_mapping (fst (fetch_historical_esg world delay tickers))))"
    using some_rows(1)
    by (simp add: rename_columns_def column_mapping_def columns_to_keep_def)
  from format_esg_data_columns [OF some_rows(5) assms this] some_rows(5)
  show ?thesis by simp
qed

theorem formatted_columns_of_fetched_table_witness:
  "\<not> df_empty (fst (fetch_historical_esg world_AAA 5 [''AAA'']))
   \<and> (\<exists>out. format_esg_data ''2026-11-06'' (fst (fetch_historical_esg world_AAA 5 [''AAA''])) = Inr out
          \<and> columns out = [''ticker'', ''timestamp'', ''last_processing_date'', ''total_score'',
                            ''environment_score'', ''social_score'', ''governance_score''])"
proof -
  have h: "\<not> df_empty (fst (fetch_historical_esg world_AAA 5 [''AAA'']))"
    by (simp add: fetch_world_AAA df_empty_def columns_to_keep_def)
  from formatted_columns_of_fetched_table [OF h, of "''2026-11-06''"] h show ?thesis
    by (simp add: fetch_world_AAA rename_columns_def column_mapping_def columns_to_keep_def
        score_columns_def)
qed

text \<open>
  C6. Two runs on the same ticker list, with the same answers to the requests and the
  same library, fetch the same table whatever the random draws are; the formatted tables
  have the same number of rows and agree on every column but last\_processing\_date.
\<close>

theorem output_independent_of_random_draws:
  assumes "requests_get w1 = requests_get w2"
    and "to_datetime_other w1 = to_datetime_other w2"
  shows "fst (fetch_historical_esg w1 5 tickers) = fst (fetch_historical_esg w2 5 tickers)
       \<and> (\<exists>out1 out2. run_pipeline w1 today1 tickers = Inr out1
            \<and> run_pipeline w2 today2 tickers = Inr out2
            \<and> drop_column ''last_processing_date'' out1 = drop_column ''last_processing_date'' out2
            \<and> length (rows out1) = length (rows out2))"
proof -
  note same = fetch_same_answers [OF assms, of 5 tickers 5]
  show ?thesis
  proof (cases rule: formatted_fetch_cases [of w1 5 tickers today1])
    case no_rows
    then have "format_esg_data today2 (fst (fetch_historical_esg w1 5 tickers))
        = Inr (fst (fetch_historical_esg w1 5 tickers))"
      by (simp add: format_esg_data_def df_empty_def)
    with no_rows(2) same show ?thesis by (simp add: run_pipeline_def)
  next
    case some_rows
    from format_esg_data_fetched [OF some_rows(1,2,3), of today2] some_rows(5) same
    show ?thesis by (simp add: run_pipeline_def drop_column_formatted)
  qed
qed

theorem output_independent_of_random_draws_witness:
  "requests_get world_AAA = requests_get world_AAA_quick
   \<and> to_datetime_other world_AAA = to_datetime_other world_AAA_quick
   \<and> random_uniform world_AAA 1 \<noteq> random_uniform world_AAA_quick 1
   \<and> fst (fetch_historical_esg world_AAA 5 [''AAA'']) = fst (fetch_historical_esg world_AAA_quick 5 [''AAA''])
   \<and> (\<exists>out1 out2. run_pipeline world_AAA ''2026-11-06'' [''AAA''] = Inr out1
            \<and> run_pipeline world_AAA_quick ''2026-11-07'' [''AAA''] = Inr out2
            \<and> drop_column ''last_processing_date'' out1 = drop_column ''last_processing_date'' out2
            \<and> length (rows out1) = length (rows out2))"
proof -
  have a: "requests_get world_AAA = requests_get world_AAA_quick"
    and b: "to_datetime_other world_AAA = to_datetime_other world_AAA_quick"
    and c: "random_uniform world_AAA 1 \<noteq> random_uniform world_AAA_quick 1"
    by (simp_all add: world_AAA_quick_def world_AAA_def fixed_world_def)
  from output_independent_of_random_draws [OF a b, of "[''AAA'']" "''2026-11-06''" "''2026-11-07''"] a b c
  show ?thesis by blast
qed

text \<open>
  C7. Every value in the ticker column of the final table is one of the input tickers
  (for every ticker list, the empty one included).
\<close>

theorem output_tickers_subset_of_input:
  "\<exists>out. run_pipeline world today tickers = Inr out
        \<and> set (column_values ''ticker'' out) \<subseteq> set (map (\<lambda>t. Val (JStr t)) tickers)"
proof (cases rule: formatted_fetch_cases [of world 5 tickers today])
  case no_rows
  then show ?thesis by (simp add: run_pipeline_def column_values_no_rows)
next
  case some_rows
  from some_rows(4) have "set (map (\<lambda>r. r ! 1) (rows (fst (fetch_historical_esg world 5 tickers))))
      \<subseteq> set (map (\<lambda>t. Val (JStr t)) tickers)"
    by (auto simp: list_all_iff)
  with some_rows(5) show ?thesis
    by (simp add: run_pipeline_def column_values_formatted(1))
qed

theorem output_tickers_subset_of_input_witness:
  "\<exists>out. run_pipeline world_AAA ''2026-11-06'' [''AAA'', ''BBB''] = Inr out
        \<and> set (column_values ''ticker'' out) \<subseteq> set (map (\<lambda>t. Val (JStr t)) [''AAA'', ''BBB''])"
  by (rule output_tickers_subset_of_input)

text \<open>
  C8. Every row of the final table of a run carries the same last\_processing\_date, the
  date read at line 127.
\<close>

theorem same_processing_date_on_every_row:
  "\<exists>out. run_pipeline world today tickers = Inr out
        \<and> column_values ''last_processing_date'' out
            = replicate (length (rows out)) (Val (JStr today))"
proof (cases rule: formatted_fetch_cases [of world 5 tickers today])
  case no_rows
  then show ?thesis by (simp add: run_pipeline_def column_values_no_rows)
next
  case some_rows
  then show ?thesis
    by (simp add: run_pipeline_def column_values_formatted(2) map_replicate_const)
qed

theorem same_processing_date_on_every_row_witness:
  "\<exists>out. run_pipeline world_AAA ''2026-11-06'' [''AAA'', ''BBB''] = Inr out
        \<and> column_values ''last_processing_date'' out
            = replicate (length (rows out)) (Val (JStr ''2026-11-06''))"
  by (rule same_processing_date_on_every_row)

text \<open>
  C9. When a 2xx response leads to a series in which one of the four score fields occurs
  in no record, building the table of the ticker raises (the projection of line 65 raises
  \<^verbatim>\<open>KeyError\<close> on any table made of the fields of the series and the ticker column, unless
  an earlier line has raised already); the handler of line 88 counts the ticker as
  failed, no table is added, and the loop goes on. Consequently a fetched table that is
  not empty has all four score columns, with a cell in every row.
\<close>

theorem missing_score_field_counts_as_failed:
  assumes "requests_get world i ticker = Response code (Some data)"
    and "200 \<le> code" and "code < 300"
    and "symbol_series data = Inr series"
    and "field \<in> set score_fields" and "field \<notin> set (series_fields series)"
  shows "(\<exists>e. ticker_frame (to_datetime_other world) ticker series = Inl e)
       \<and> (\<forall>df. set (columns df) \<subseteq> insert ''ticker'' (set (series_fields series))
               \<longrightarrow> select_columns columns_to_keep df = Inl KeyError)
       \<and> process_ticker world delay i ticker st =
           st\<lparr>failed_tickers := failed_tickers st + 1,
              trace := trace st @ [Sleep (delay + random_uniform world i), Get ticker,
                                   Print (Error_processing ticker)]\<rparr>
       \<and> fetch_loop world delay i (ticker # rest) st =
           fetch_loop world delay (Suc i) rest
             (st\<lparr>failed_tickers := failed_tickers st + 1,
                 trace := trace st @ [Sleep (delay + random_uniform world i), Get ticker,
                                      Print (Error_processing ticker)]\<rparr>)
       \<and> (\<not> df_empty (fst (fetch_historical_esg world' delay' tickers))
            \<longrightarrow> set score_fields \<subseteq> set (columns (fst (fetch_historical_esg world' delay' tickers)))
                \<and> wf_frame (fst (fetch_historical_esg world' delay' tickers)))"
proof -
  have ok: "response_ok code" using assms(2,3) by (simp add: response_ok_def)
  from ticker_frame_missing_field [OF assms(5,6)]
  obtain e where e: "ticker_frame (to_datetime_other world) ticker series = Inl e" by blast
  with symbol_series_has_result [OF assms(4)] assms(4)
  have "extract_frame (to_datetime_other world) ticker data = Inl e"
    by (simp add: extract_frame_def)
  note p = process_ticker_failed(2) [OF assms(1) ok this, of delay st]
  have sel: "select_columns columns_to_keep df = Inl KeyError"
    if "set (columns df) \<subseteq> insert ''ticker'' (set (series_fields series))" for df
  proof (rule select_columns_missing [of field])
    show "field \<in> set columns_to_keep"
      using assms(5) by (auto simp: score_fields_def columns_to_keep_def)
    from assms(5) have "field \<noteq> ''ticker''" by (auto simp: score_fields_def)
    with that assms(6) show "field \<notin> set (columns df)" by auto
  qed
  have shape: "set score_fields \<subseteq> set (columns (fst (fetch_historical_esg world' delay' tickers)))
      \<and> wf_frame (fst (fetch_historical_esg world' delay' tickers))"
    if "\<not> df_empty (fst (fetch_historical_esg world' delay' tickers))"
  proof (cases rule: formatted_fetch_cases [of world' delay' tickers "[]"])
    case no_rows
    with that show ?thesis by (simp add: df_empty_def)
  next
    case some_rows
    then show ?thesis by (simp add: score_fields_def columns_to_keep_def)
  qed
  from e sel p shape show ?thesis by simp
qed

theorem missing_score_field_counts_as_failed_witness:
  "requests_get world_no_social 1 ''AAA'' = Response 200 (Some (body_of_series series_no_social))
   \<and> symbol_series (body_of_series series_no_social) = Inr series_no_social
   \<and> ''socialScore'' \<in> set score_fields
   \<and> ''socialScore'' \<notin> set (series_fields series_no_social)
   \<and> fetch_loop world_no_social 2 1 [''AAA''] initial_state =
       \<lparr>all_data = [], successful_tickers = 0, failed_tickers = 1,
        trace = [Sleep (7 / 2), Get ''AAA'', Print (Error_processing ''AAA'')]\<rparr>
   \<and> \<not> df_empty (fst (fetch_historical_esg world_AAA 5 [''AAA'']))
   \<and> set score_fields \<subseteq> set (columns (fst (fetch_historical_esg world_AAA 5 [''AAA''])))"
proof -
  have h: "requests_get world_no_social 1 ''AAA'' = Response 200 (Some (body_of_series series_no_social))"
    by (simp add: world_no_social_def fixed_world_def)
  have r: "random_uniform world_no_social 1 = 3 / 2"
    by (simp add: world_no_social_def fixed_world_def)
  have s: "symbol_series (body_of_series series_no_social) = Inr series_no_social"
    by (simp add: symbol_series_def body_of_series_def)
  have f: "''socialScore'' \<in> set score_fields"
    by (simp add: score_fields_def)
  have n: "''socialScore'' \<notin> set (series_fields series_no_social)"
    by (simp add: series_no_social_def first_seen_def)
  have d: "\<not> df_empty (fst (fetch_historical_esg world_AAA 5 [''AAA'']))"
    by (simp add: fetch_world_AAA df_empty_def columns_to_keep_def)
  from missing_score_field_counts_as_failed [OF h _ _ s f n, of 2 initial_state "[]" world_AAA 5 "[''AAA'']"] h r s f n d
  show ?thesis by (simp add: initial_state_def)
qed


end
